theory Spec2Isabelle
  imports Complex_Main "HOL-Library.Log_Nat"
begin

section \<open>Data model\<close>

text \<open>
  The documents of the three collections the pricing and discount code reads, as records.
  A stored JavaScript \<open>number\<close> that carries a price or a discount value is the rational it
  denotes, a counter is an integer, and a \<open>Date\<close> is its time value (milliseconds since the
  epoch) as an integer, so that the comparisons of the source are the comparisons of the model.
  The identifier field of a record is the document's \<open>_id\<close>. The repositories read with
  \<open>lean()\<close>, which returns plain objects: they have \<open>_id\<close> and no \<open>id\<close> accessor, so the
  source's \<open>x.id || x._id.toString()\<close> is the \<open>_id\<close>, and a bare \<open>x.id\<close> is undefined
  (\<open>lean_id\<close> below). The \<open>createdAt\<close> and \<open>updatedAt\<close> stamps of discounts and links are
  left out: no modelled function reads them. An optional field (\<open>field?: T\<close>) is an
  \<open>option\<close>.
\<close>

type_synonym Date = int

datatype DiscountType = PERCENTAGE | FIXED_AMOUNT

record Discount =
  discount_id :: string
  discount_code :: "string option"
  discount_name :: string
  discount_description :: "string option"
  discountType :: DiscountType
  discount_value :: rat
  startDate :: Date
  endDate :: Date
  isActive :: bool
  minimumOrderValue :: "rat option"
  minimumQuantity :: "int option"
  maxUsageCount :: "int option"
  usageCount :: int

record ProductDiscount =
  link_id :: string
  productId :: string
  productItemId :: "string option"
  discountId :: string
  link_isActive :: bool

record Product =
  product_id :: string
  name :: string
  slug :: string
  description :: string
  basePrice :: rat
  categoryId :: string
  sku :: string
  images :: "string list"
  metadata :: "(string \<times> string) list option"
  createdAt :: Date
  updatedAt :: Date

text \<open>One entry of \<open>appliedDiscounts\<close>, and the response of the product read endpoints
  (\<open>ProductResponseDto\<close>; \<open>finalPrice\<close> and \<open>appliedDiscounts\<close> are declared optional there).\<close>

record AppliedDiscount =
  applied_id :: string
  applied_name :: string
  applied_discountType :: DiscountType
  applied_value :: rat

record ProductResponseDto =
  res_id :: string
  res_name :: string
  res_slug :: string
  res_description :: string
  res_basePrice :: rat
  res_categoryId :: string
  res_sku :: string
  res_images :: "string list"
  res_metadata :: "(string \<times> string) list option"
  res_finalPrice :: "rat option"
  res_appliedDiscounts :: "AppliedDiscount list option"
  res_createdAt :: Date
  res_updatedAt :: Date

text \<open>The store: the \<open>discounts\<close> and \<open>product_discounts\<close> collections, in storage order.\<close>

record Database =
  discounts :: "Discount list"
  productDiscounts :: "ProductDiscount list"

section \<open>Repositories\<close>

text \<open>\<open>BaseRepository.findById\<close> on the discount collection: the document with that
  identifier, or null.\<close>

definition findById :: "Discount list \<Rightarrow> string \<Rightarrow> Discount option" where
  "findById ds i = find (\<lambda>d. discount_id d = i) ds"

text \<open>\<open>ProductDiscountRepository.findByProduct\<close>: \<open>findAll({ productId, isActive: true })\<close>.\<close>

definition findByProduct :: "ProductDiscount list \<Rightarrow> string \<Rightarrow> ProductDiscount list" where
  "findByProduct links pid = filter (\<lambda>l. productId l = pid \<and> link_isActive l) links"

text \<open>The \<open>id\<close> property of a document that a repository returns: \<open>findById\<close>,
  \<open>findOne\<close> and \<open>findAll\<close> of \<open>BaseRepository\<close> all end in \<open>lean()\<close>, and a lean result
  has no \<open>id\<close> accessor, so the property is undefined.\<close>

definition lean_id :: "'a \<Rightarrow> string option" where
  "lean_id doc = None"

text \<open>\<open>DiscountRepository.isDiscountValid\<close>, at wall-clock time \<open>now\<close>. The JavaScript test
  \<open>discount.maxUsageCount && ...\<close> is false for an absent cap and for the number 0.\<close>

definition isDiscountValid :: "Discount list \<Rightarrow> Date \<Rightarrow> string \<Rightarrow> bool" where
  "isDiscountValid ds now i =
     (case findById ds i of
        None \<Rightarrow> False
      | Some discount \<Rightarrow>
          if \<not> isActive discount then False
          else if startDate discount > now \<or> endDate discount < now then False
          else if (case maxUsageCount discount of
                     None \<Rightarrow> False
                   | Some m \<Rightarrow> m \<noteq> 0 \<and> usageCount discount \<ge> m) then False
          else True)"

section \<open>Pricing: \<open>ProductsService.calculateProductPricing\<close>\<close>

text \<open>The numbers of the source are IEEE 754 binary64 values, and each of its arithmetic
  operations rounds. The resolver is given in two readings of that arithmetic: \<open>resolvePricing\<close>
  in this section takes the operations as exact rational arithmetic, \<open>resolvePricing64\<close>, after
  the section on binary64 arithmetic, rounds every operation as the source does. The filter,
  the loop and the returns are the same in both.\<close>

text \<open>The callback of \<open>discounts.filter\<close>: null and inactive records fail, the others pass
  when \<open>now\<close> lies in their window. The source reads the clock in each call of the callback;
  the model takes one reading \<open>now\<close> for the whole request.\<close>

definition validAndActive :: "Date \<Rightarrow> Discount option \<Rightarrow> bool" where
  "validAndActive now discount =
     (case discount of
        None \<Rightarrow> False
      | Some d \<Rightarrow> if \<not> isActive d then False else startDate d \<le> now \<and> endDate d \<ge> now)"

text \<open>The candidate price of one discount: the \<open>if\<close> / \<open>else if\<close> of the loop body, with
  \<open>discountedPrice\<close> starting at \<open>basePrice\<close>.\<close>

definition discountedPrice :: "rat \<Rightarrow> Discount \<Rightarrow> rat" where
  "discountedPrice bp discount =
     (if discountType discount = PERCENTAGE then bp * (1 - discount_value discount / 100)
      else if discountType discount = FIXED_AMOUNT then max 0 (bp - discount_value discount)
      else bp)"

definition savings :: "rat \<Rightarrow> Discount \<Rightarrow> rat" where
  "savings bp discount = bp - discountedPrice bp discount"

text \<open>The \<open>for\<close> loop over \<open>validDiscounts\<close>; its state is
  \<open>(finalPrice, bestDiscount, maxSavings)\<close>.\<close>

fun bestDiscountLoop ::
  "rat \<Rightarrow> Discount list \<Rightarrow> rat \<times> Discount option \<times> rat \<Rightarrow> rat \<times> Discount option \<times> rat" where
  "bestDiscountLoop bp [] st = st"
| "bestDiscountLoop bp (discount # rest) (finalPrice, bestDiscount, maxSavings) =
     (if savings bp discount > maxSavings
      then bestDiscountLoop bp rest (discountedPrice bp discount, Some discount, savings bp discount)
      else bestDiscountLoop bp rest (finalPrice, bestDiscount, maxSavings))"

definition toApplied :: "Discount \<Rightarrow> AppliedDiscount" where
  "toApplied bestDiscount =
     \<lparr> applied_id = discount_id bestDiscount,
       applied_name = discount_name bestDiscount,
       applied_discountType = discountType bestDiscount,
       applied_value = discount_value bestDiscount \<rparr>"

definition validDiscounts :: "Database \<Rightarrow> Date \<Rightarrow> ProductDiscount list \<Rightarrow> Discount list" where
  "validDiscounts db now links =
     map the (filter (validAndActive now)
                (map (findById (discounts db)) (map discountId links)))"

text \<open>Every return of \<open>calculateProductPricing\<close> is \<open>mapToResponseDto(product, x, y)\<close>.
  \<open>resolvePricing\<close> is the pair \<open>(x, y)\<close> of the return taken: the final price and the
  applied discounts the resolver hands over.\<close>

definition resolvePricing :: "Database \<Rightarrow> Date \<Rightarrow> Product \<Rightarrow> rat \<times> AppliedDiscount list" where
  "resolvePricing db now product =
     (let links = findByProduct (productDiscounts db) (product_id product) in
      if length links = 0 then (basePrice product, [])
      else
        let valid = validDiscounts db now links in
        if length valid = 0 then (basePrice product, [])
        else
          (case bestDiscountLoop (basePrice product) valid (basePrice product, None, 0) of
             (finalPrice, bestDiscount, maxSavings) \<Rightarrow>
               (finalPrice, (case bestDiscount of Some b \<Rightarrow> [toApplied b] | None \<Rightarrow> []))))"

definition mapToResponseDto :: "Product \<Rightarrow> rat \<Rightarrow> AppliedDiscount list \<Rightarrow> ProductResponseDto" where
  "mapToResponseDto product finalPrice appliedDiscounts =
     \<lparr> res_id = product_id product,
       res_name = name product,
       res_slug = slug product,
       res_description = description product,
       res_basePrice = basePrice product,
       res_categoryId = categoryId product,
       res_sku = sku product,
       res_images = images product,
       res_metadata = metadata product,
       res_finalPrice = Some finalPrice,
       res_appliedDiscounts = (if length appliedDiscounts > 0 then Some appliedDiscounts else None),
       res_createdAt = createdAt product,
       res_updatedAt = updatedAt product \<rparr>"

definition calculateProductPricing :: "Database \<Rightarrow> Date \<Rightarrow> Product \<Rightarrow> ProductResponseDto" where
  "calculateProductPricing db now product =
     (case resolvePricing db now product of
        (finalPrice, appliedDiscounts) \<Rightarrow> mapToResponseDto product finalPrice appliedDiscounts)"

section \<open>Binary64 arithmetic\<close>

text \<open>A JavaScript number is a binary64 value: a finite one (a rational \<open>m * 2^e\<close> with
  \<open>\<bar>m\<bar> < 2^53\<close> and \<open>e \<ge> - 1074\<close>), an infinity or NaN. The two zeros are one value here: the
  pricing code never divides by a computed number, \<open>Math.max(0, -0)\<close> is \<open>0\<close>, comparisons treat
  the zeros as equal and JSON writes both as \<open>0\<close>.\<close>

datatype number = Fin rat | PosInf | NegInf | NaN

text \<open>Rounding to the nearest integer, ties to the even one.\<close>

definition roundHalfEven :: "rat \<Rightarrow> int" where
  "roundHalfEven x =
     (let f = \<lfloor>x\<rfloor>; r = x - of_int f in
      if r < 1 / 2 then f else if r > 1 / 2 then f + 1 else if even f then f else f + 1)"

text \<open>\<open>floorLog2 x\<close> is the integer \<open>k\<close> with \<open>2^k \<le> x < 2^(k+1)\<close>, for positive \<open>x\<close>: the
  difference of the bit lengths of numerator and denominator, or one less.\<close>

definition floorLog2 :: "rat \<Rightarrow> int" where
  "floorLog2 x =
     (case quotient_of x of
        (n, d) \<Rightarrow> let k = bitlen n - bitlen d in if 2 powi k \<le> x then k else k - 1)"

text \<open>The spacing of the binary64 values around \<open>x\<close>: 53 significant bits, and \<open>2^-1074\<close> in the
  subnormal range.\<close>

definition quantum :: "rat \<Rightarrow> rat" where
  "quantum x = 2 powi (max (floorLog2 \<bar>x\<bar> - 52) (- 1074))"

text \<open>Round to nearest, ties to even, without regard to the range; then the range: a result of
  magnitude \<open>2^1024\<close> or more is an infinity.\<close>

definition roundFinite :: "rat \<Rightarrow> rat" where
  "roundFinite x = (if x = 0 then 0 else of_int (roundHalfEven (x / quantum x)) * quantum x)"

definition round64 :: "rat \<Rightarrow> number" where
  "round64 x =
     (let r = roundFinite x in
      if r \<ge> 2 ^ 1024 then PosInf else if r \<le> - (2 ^ 1024) then NegInf else Fin r)"

text \<open>The rationals that are binary64 values.\<close>

definition isDouble :: "rat \<Rightarrow> bool" where
  "isDouble x = (round64 x = Fin x)"

text \<open>The operations the pricing code uses: \<open>x - y\<close>, \<open>x * y\<close>, \<open>x / 100\<close>, \<open>Math.max(0, x)\<close>
  and \<open>x > y\<close>, with the IEEE rules for infinities and NaN; \<open>ge0 x\<close> is \<open>x >= 0\<close>.\<close>

fun sub64 :: "number \<Rightarrow> number \<Rightarrow> number" where
  "sub64 NaN y = NaN"
| "sub64 x NaN = NaN"
| "sub64 (Fin a) (Fin b) = round64 (a - b)"
| "sub64 (Fin a) PosInf = NegInf"
| "sub64 (Fin a) NegInf = PosInf"
| "sub64 PosInf PosInf = NaN"
| "sub64 PosInf y = PosInf"
| "sub64 NegInf NegInf = NaN"
| "sub64 NegInf y = NegInf"

fun mul64 :: "number \<Rightarrow> number \<Rightarrow> number" where
  "mul64 NaN y = NaN"
| "mul64 x NaN = NaN"
| "mul64 (Fin a) (Fin b) = round64 (a * b)"
| "mul64 (Fin a) PosInf = (if a = 0 then NaN else if a > 0 then PosInf else NegInf)"
| "mul64 (Fin a) NegInf = (if a = 0 then NaN else if a > 0 then NegInf else PosInf)"
| "mul64 PosInf (Fin b) = (if b = 0 then NaN else if b > 0 then PosInf else NegInf)"
| "mul64 NegInf (Fin b) = (if b = 0 then NaN else if b > 0 then NegInf else PosInf)"
| "mul64 PosInf PosInf = PosInf"
| "mul64 PosInf NegInf = NegInf"
| "mul64 NegInf PosInf = NegInf"
| "mul64 NegInf NegInf = PosInf"

fun div100 :: "number \<Rightarrow> number" where
  "div100 (Fin a) = round64 (a / 100)"
| "div100 x = x"

fun max0 :: "number \<Rightarrow> number" where
  "max0 (Fin a) = Fin (max 0 a)"
| "max0 PosInf = PosInf"
| "max0 NegInf = Fin 0"
| "max0 NaN = NaN"

fun gt64 :: "number \<Rightarrow> number \<Rightarrow> bool" where
  "gt64 NaN y = False"
| "gt64 x NaN = False"
| "gt64 (Fin a) (Fin b) = (a > b)"
| "gt64 (Fin a) PosInf = False"
| "gt64 (Fin a) NegInf = True"
| "gt64 PosInf PosInf = False"
| "gt64 PosInf y = True"
| "gt64 NegInf y = False"

fun ge0 :: "number \<Rightarrow> bool" where
  "ge0 (Fin a) = (0 \<le> a)"
| "ge0 PosInf = True"
| "ge0 NegInf = False"
| "ge0 NaN = False"

section \<open>Pricing in binary64\<close>

text \<open>The loop body and the loop of \<open>calculateProductPricing\<close> once more, every operation
  rounded: \<open>basePrice * (1 - discount.value / 100)\<close> rounds three times. The stored
  \<open>basePrice\<close> and \<open>value\<close> enter as the finite numbers they are.\<close>

definition discountedPrice64 :: "rat \<Rightarrow> Discount \<Rightarrow> number" where
  "discountedPrice64 bp discount =
     (if discountType discount = PERCENTAGE
      then mul64 (Fin bp) (sub64 (Fin 1) (div100 (Fin (discount_value discount))))
      else if discountType discount = FIXED_AMOUNT
      then max0 (sub64 (Fin bp) (Fin (discount_value discount)))
      else Fin bp)"

definition savings64 :: "rat \<Rightarrow> Discount \<Rightarrow> number" where
  "savings64 bp discount = sub64 (Fin bp) (discountedPrice64 bp discount)"

fun bestDiscountLoop64 ::
  "rat \<Rightarrow> Discount list \<Rightarrow> number \<times> Discount option \<times> number \<Rightarrow> number \<times> Discount option \<times> number" where
  "bestDiscountLoop64 bp [] st = st"
| "bestDiscountLoop64 bp (discount # rest) (finalPrice, bestDiscount, maxSavings) =
     (if gt64 (savings64 bp discount) maxSavings
      then bestDiscountLoop64 bp rest (discountedPrice64 bp discount, Some discount, savings64 bp discount)
      else bestDiscountLoop64 bp rest (finalPrice, bestDiscount, maxSavings))"

definition resolvePricing64 :: "Database \<Rightarrow> Date \<Rightarrow> Product \<Rightarrow> number \<times> AppliedDiscount list" where
  "resolvePricing64 db now product =
     (let links = findByProduct (productDiscounts db) (product_id product) in
      if length links = 0 then (Fin (basePrice product), [])
      else
        let valid = validDiscounts db now links in
        if length valid = 0 then (Fin (basePrice product), [])
        else
          (case bestDiscountLoop64 (basePrice product) valid (Fin (basePrice product), None, Fin 0) of
             (finalPrice, bestDiscount, maxSavings) \<Rightarrow>
               (finalPrice, (case bestDiscount of Some b \<Rightarrow> [toApplied b] | None \<Rightarrow> []))))"

section \<open>Discount administration: \<open>DiscountsService\<close>\<close>

text \<open>The exceptions the service throws, as values. A service operation returns its result or
  its error together with the store it leaves behind.\<close>

datatype error =
  ConflictException string
| BadRequestException string
| NotFoundException string

text \<open>The request bodies. \<open>startDate\<close> and \<open>endDate\<close> arrive as ISO strings that the
  validation pipe has checked (\<open>IsDateString\<close>); the model carries the time value that
  \<open>new Date(...)\<close> gives them.\<close>

record CreateDiscountDto =
  cd_code :: "string option"
  cd_name :: string
  cd_description :: "string option"
  cd_discountType :: DiscountType
  cd_value :: rat
  cd_startDate :: Date
  cd_endDate :: Date
  cd_minimumOrderValue :: "rat option"
  cd_minimumQuantity :: "int option"
  cd_maxUsageCount :: "int option"

record UpdateDiscountDto =
  ud_code :: "string option"
  ud_name :: "string option"
  ud_description :: "string option"
  ud_discountType :: "DiscountType option"
  ud_value :: "rat option"
  ud_startDate :: "Date option"
  ud_endDate :: "Date option"
  ud_isActive :: "bool option"
  ud_minimumOrderValue :: "rat option"
  ud_minimumQuantity :: "int option"
  ud_maxUsageCount :: "int option"

text \<open>\<open>String.prototype.toUpperCase\<close> on the ASCII letters.\<close>

definition toUpperCase :: "string \<Rightarrow> string" where
  "toUpperCase s =
     map (\<lambda>c. let n = (of_char c :: nat) in if 97 \<le> n \<and> n \<le> 122 then char_of (n - 32) else c) s"

text \<open>\<open>String.prototype.trim\<close> on the ASCII white space (tab to carriage return, and the
  space). The discount schema declares \<open>code\<close> with \<open>uppercase\<close> and \<open>trim\<close>, and \<open>name\<close>
  and \<open>description\<close> with \<open>trim\<close>; the setters run when a document is saved or updated and
  when a query filter is cast.\<close>

definition isWhiteSpace :: "char \<Rightarrow> bool" where
  "isWhiteSpace c = (let n = (of_char c :: nat) in n = 32 \<or> (9 \<le> n \<and> n \<le> 13))"

definition trim :: "string \<Rightarrow> string" where
  "trim s = rev (dropWhile isWhiteSpace (rev (dropWhile isWhiteSpace s)))"

text \<open>\<open>DiscountRepository.findByCode\<close>: \<open>findOne({ code: code.toUpperCase() })\<close>, the filter
  value passing through the setters of \<open>code\<close>.\<close>

definition findByCode :: "Discount list \<Rightarrow> string \<Rightarrow> Discount option" where
  "findByCode ds c = find (\<lambda>d. discount_code d = Some (trim (toUpperCase c))) ds"

text \<open>\<open>BaseRepository.create\<close> on the discount collection: the saved document carries the
  data as the schema's setters leave it, the identifier the store gives it (\<open>newId\<close>) and the
  schema defaults \<open>isActive = true\<close>, \<open>usageCount = 0\<close>. The save is taken to succeed.\<close>

definition createDiscount :: "Discount list \<Rightarrow> string \<Rightarrow> CreateDiscountDto \<Rightarrow> Discount \<times> Discount list" where
  "createDiscount ds newId data =
     (let saved =
        \<lparr> discount_id = newId,
          discount_code = map_option (\<lambda>c. trim (toUpperCase c)) (cd_code data),
          discount_name = trim (cd_name data),
          discount_description = map_option trim (cd_description data),
          discountType = cd_discountType data,
          discount_value = cd_value data,
          startDate = cd_startDate data,
          endDate = cd_endDate data,
          isActive = True,
          minimumOrderValue = cd_minimumOrderValue data,
          minimumQuantity = cd_minimumQuantity data,
          maxUsageCount = cd_maxUsageCount data,
          usageCount = 0 \<rparr>
      in (saved, ds @ [saved]))"

text \<open>\<open>DiscountsService.create\<close>. A code is looked up when it is truthy (present and not the
  empty string).\<close>

definition create :: "Database \<Rightarrow> string \<Rightarrow> CreateDiscountDto \<Rightarrow> (error + Discount) \<times> Database" where
  "create db newId createDiscountDto =
     (case (case cd_code createDiscountDto of
              None \<Rightarrow> None
            | Some c \<Rightarrow> if c = [] then None else findByCode (discounts db) c) of
        Some existing \<Rightarrow> (Inl (ConflictException ''Discount with this code already exists''), db)
      | None \<Rightarrow>
          if cd_startDate createDiscountDto \<ge> cd_endDate createDiscountDto
          then (Inl (BadRequestException ''End date must be after start date''), db)
          else
            (case createDiscount (discounts db) newId
                    (createDiscountDto\<lparr>cd_code := map_option toUpperCase (cd_code createDiscountDto)\<rparr>) of
               (saved, ds) \<Rightarrow> (Inr saved, db\<lparr>discounts := ds\<rparr>)))"

text \<open>\<open>findByIdAndUpdate(id, data, { new: true })\<close>: the fields present in \<open>data\<close>, passed
  through the schema's setters, replace those of the document with that identifier; the updated
  document is returned, or null when there is none.\<close>

definition applyUpdate :: "Discount \<Rightarrow> UpdateDiscountDto \<Rightarrow> Discount" where
  "applyUpdate d data =
     d\<lparr> discount_code :=
          (case ud_code data of None \<Rightarrow> discount_code d | Some c \<Rightarrow> Some (trim (toUpperCase c))),
        discount_name := (case ud_name data of None \<Rightarrow> discount_name d | Some n \<Rightarrow> trim n),
        discount_description :=
          (case ud_description data of None \<Rightarrow> discount_description d | Some x \<Rightarrow> Some (trim x)),
        discountType := (case ud_discountType data of None \<Rightarrow> discountType d | Some t \<Rightarrow> t),
        discount_value := (case ud_value data of None \<Rightarrow> discount_value d | Some v \<Rightarrow> v),
        startDate := (case ud_startDate data of None \<Rightarrow> startDate d | Some t \<Rightarrow> t),
        endDate := (case ud_endDate data of None \<Rightarrow> endDate d | Some t \<Rightarrow> t),
        isActive := (case ud_isActive data of None \<Rightarrow> isActive d | Some b \<Rightarrow> b),
        minimumOrderValue :=
          (case ud_minimumOrderValue data of None \<Rightarrow> minimumOrderValue d | Some v \<Rightarrow> Some v),
        minimumQuantity :=
          (case ud_minimumQuantity data of None \<Rightarrow> minimumQuantity d | Some q \<Rightarrow> Some q),
        maxUsageCount :=
          (case ud_maxUsageCount data of None \<Rightarrow> maxUsageCount d | Some m \<Rightarrow> Some m) \<rparr>"

fun updateDiscount :: "Discount list \<Rightarrow> string \<Rightarrow> UpdateDiscountDto \<Rightarrow> Discount option \<times> Discount list" where
  "updateDiscount [] i data = (None, [])"
| "updateDiscount (d # ds) i data =
     (if discount_id d = i then (Some (applyUpdate d data), applyUpdate d data # ds)
      else (case updateDiscount ds i data of (r, ds') \<Rightarrow> (r, d # ds')))"

text \<open>\<open>DiscountsService.update\<close>. The record fetched by \<open>findOne\<close> is only checked to exist.
  The holder of a taken code is compared by \<open>existing.id !== id\<close>, on a lean object. The dates
  are compared when the request carries both.\<close>

definition update :: "Database \<Rightarrow> string \<Rightarrow> UpdateDiscountDto \<Rightarrow> (error + Discount) \<times> Database" where
  "update db i updateDiscountDto =
     (case findById (discounts db) i of
        None \<Rightarrow> (Inl (NotFoundException (''Discount with ID '' @ i @ '' not found'')), db)
      | Some _ \<Rightarrow>
          (case (case ud_code updateDiscountDto of
                   None \<Rightarrow> None
                 | Some c \<Rightarrow>
                     if c = [] then None
                     else (case findByCode (discounts db) c of
                             None \<Rightarrow> None
                           | Some existing \<Rightarrow> if lean_id existing \<noteq> Some i then Some existing else None)) of
             Some existing \<Rightarrow> (Inl (ConflictException ''Discount with this code already exists''), db)
           | None \<Rightarrow>
               (let dto = (case ud_code updateDiscountDto of
                             None \<Rightarrow> updateDiscountDto
                           | Some c \<Rightarrow> if c = [] then updateDiscountDto
                                      else updateDiscountDto\<lparr>ud_code := Some (toUpperCase c)\<rparr>)
                in
                  if (case (ud_startDate dto, ud_endDate dto) of
                        (Some s, Some e) \<Rightarrow> s \<ge> e
                      | _ \<Rightarrow> False)
                  then (Inl (BadRequestException ''End date must be after start date''), db)
                  else
                    (case updateDiscount (discounts db) i dto of
                       (None, ds) \<Rightarrow>
                         (Inl (BadRequestException ''Failed to update discount''), db\<lparr>discounts := ds\<rparr>)
                     | (Some updated, ds) \<Rightarrow> (Inr updated, db\<lparr>discounts := ds\<rparr>)))))"

text \<open>\<open>BaseRepository.findOne\<close> on the link collection with the filter \<open>{ productId,
  discountId }\<close>: the first matching document, as a lean object, or null.\<close>

definition findOneLink :: "ProductDiscount list \<Rightarrow> string \<Rightarrow> string \<Rightarrow> ProductDiscount option" where
  "findOneLink links pid did = find (\<lambda>l. productId l = pid \<and> discountId l = did) links"

text \<open>\<open>BaseRepository.delete(id)\<close> on the link collection: \<open>findByIdAndDelete(id)\<close>, answering
  whether a document was removed. An undefined \<open>id\<close> matches no document.\<close>

fun deleteLink :: "ProductDiscount list \<Rightarrow> string option \<Rightarrow> bool \<times> ProductDiscount list" where
  "deleteLink links None = (False, links)"
| "deleteLink [] (Some i) = (False, [])"
| "deleteLink (l # ls) (Some i) =
     (if link_id l = i then (True, ls)
      else (case deleteLink ls (Some i) of (removed, ls') \<Rightarrow> (removed, l # ls')))"

text \<open>\<open>ProductDiscountRepository.unlinkProductFromDiscount\<close>: \<open>findOne({ productId,
  discountId })\<close>, then \<open>delete(link.id)\<close> on the lean object found.\<close>

definition unlinkProductFromDiscount ::
  "ProductDiscount list \<Rightarrow> string \<Rightarrow> string \<Rightarrow> bool \<times> ProductDiscount list" where
  "unlinkProductFromDiscount links pid did =
     (case findOneLink links pid did of
        None \<Rightarrow> (False, links)
      | Some link \<Rightarrow> deleteLink links (lean_id link))"

text \<open>\<open>DiscountsService.unlinkFromProduct\<close>.\<close>

definition unlinkFromProduct :: "Database \<Rightarrow> string \<Rightarrow> string \<Rightarrow> (error + unit) \<times> Database" where
  "unlinkFromProduct db pid did =
     (case unlinkProductFromDiscount (productDiscounts db) pid did of
        (unlinked, links) \<Rightarrow>
          if \<not> unlinked
          then (Inl (NotFoundException ''Product-Discount link not found''), db\<lparr>productDiscounts := links\<rparr>)
          else (Inr (), db\<lparr>productDiscounts := links\<rparr>))"

section \<open>Sample data\<close>

text \<open>A product priced at 100 and the discounts, links and stores the concrete checks below run
  on. All sample discounts are active over the window \<open>[0, 1000]\<close>.\<close>

definition sampleProduct :: Product where
  "sampleProduct =
     \<lparr> product_id = ''p1'', name = ''Headphones'', slug = ''headphones'',
       description = ''Wireless'', basePrice = 100, categoryId = ''c1'', sku = ''HP-1'',
       images = [], metadata = None, createdAt = 0, updatedAt = 0 \<rparr>"

definition sampleDiscount :: "string \<Rightarrow> DiscountType \<Rightarrow> rat \<Rightarrow> Discount" where
  "sampleDiscount i t v =
     \<lparr> discount_id = i, discount_code = None, discount_name = ''Sale'',
       discount_description = None, discountType = t, discount_value = v,
       startDate = 0, endDate = 1000, isActive = True,
       minimumOrderValue = None, minimumQuantity = None,
       maxUsageCount = None, usageCount = 0 \<rparr>"

definition sampleLink :: "string \<Rightarrow> string \<Rightarrow> ProductDiscount" where
  "sampleLink i did =
     \<lparr> link_id = i, productId = ''p1'', productItemId = None, discountId = did,
       link_isActive = True \<rparr>"

text \<open>A 20 percent discount whose usage cap of 5 is used up.\<close>

definition exhaustedDiscount :: Discount where
  "exhaustedDiscount = (sampleDiscount ''d1'' PERCENTAGE 20)\<lparr>maxUsageCount := Some 5, usageCount := 5\<rparr>"

definition exhaustedDb :: Database where
  "exhaustedDb = \<lparr> discounts = [exhaustedDiscount], productDiscounts = [sampleLink ''l1'' ''d1''] \<rparr>"

definition emptyDb :: Database where
  "emptyDb = \<lparr> discounts = [], productDiscounts = [] \<rparr>"

text \<open>Three discounts on the sample product: 10 percent saves 10, a fixed 20 and 20 percent both
  save 20. The links are stored in that order.\<close>

definition tenPercent :: Discount where
  "tenPercent = sampleDiscount ''d10'' PERCENTAGE 10"

definition twentyFixed :: Discount where
  "twentyFixed = sampleDiscount ''d20f'' FIXED_AMOUNT 20"

definition twentyPercent :: Discount where
  "twentyPercent = sampleDiscount ''d20p'' PERCENTAGE 20"

definition tieDb :: Database where
  "tieDb =
     \<lparr> discounts = [tenPercent, twentyFixed, twentyPercent],
       productDiscounts = [sampleLink ''l1'' ''d10'', sampleLink ''l2'' ''d20f'', sampleLink ''l3'' ''d20p''] \<rparr>"

text \<open>A 20 percent discount whose window closed at 400, linked beside the 10 percent one; and a
  store where it is the only linked discount.\<close>

definition expiredDiscount :: Discount where
  "expiredDiscount = (sampleDiscount ''d1'' PERCENTAGE 20)\<lparr>endDate := 400\<rparr>"

definition expiredDb :: Database where
  "expiredDb =
     \<lparr> discounts = [expiredDiscount, tenPercent],
       productDiscounts = [sampleLink ''l1'' ''d1'', sampleLink ''l2'' ''d10''] \<rparr>"

definition onlyExpiredDb :: Database where
  "onlyExpiredDb =
     \<lparr> discounts = [expiredDiscount], productDiscounts = [sampleLink ''l1'' ''d1''] \<rparr>"

text \<open>A percentage discount of 150, and a fixed discount of 60 for a price of 50.\<close>

definition overHundred :: Discount where
  "overHundred = sampleDiscount ''d150'' PERCENTAGE 150"

definition overHundredDb :: Database where
  "overHundredDb =
     \<lparr> discounts = [overHundred], productDiscounts = [sampleLink ''l1'' ''d150''] \<rparr>"

definition sixtyFixed :: Discount where
  "sixtyFixed = sampleDiscount ''d60'' FIXED_AMOUNT 60"

text \<open>An update request that carries no field, a store holding the 20 percent discount alone, and
  a creation request for a coded discount with a given window.\<close>

definition emptyUpdate :: UpdateDiscountDto where
  "emptyUpdate =
     \<lparr> ud_code = None, ud_name = None, ud_description = None, ud_discountType = None,
       ud_value = None, ud_startDate = None, ud_endDate = None, ud_isActive = None,
       ud_minimumOrderValue = None, ud_minimumQuantity = None, ud_maxUsageCount = None \<rparr>"

definition windowDb :: Database where
  "windowDb = \<lparr> discounts = [twentyPercent], productDiscounts = [] \<rparr>"

definition sampleCreate :: "Date \<Rightarrow> Date \<Rightarrow> CreateDiscountDto" where
  "sampleCreate s e =
     \<lparr> cd_code = Some ''summer'', cd_name = ''Summer Sale'', cd_description = None,
       cd_discountType = PERCENTAGE, cd_value = 20, cd_startDate = s, cd_endDate = e,
       cd_minimumOrderValue = None, cd_minimumQuantity = None, cd_maxUsageCount = None \<rparr>"

text \<open>A fixed 34 and a 34 percent discount, linked in that order: exact arithmetic gives both
  34 off 100, binary64 gives the percentage \<open>34.000000000000014\<close>.\<close>

definition thirtyFourFixed :: Discount where
  "thirtyFourFixed = sampleDiscount ''d34f'' FIXED_AMOUNT 34"

definition thirtyFourPercent :: Discount where
  "thirtyFourPercent = sampleDiscount ''d34p'' PERCENTAGE 34"

definition roundingDb :: Database where
  "roundingDb =
     \<lparr> discounts = [thirtyFourFixed, thirtyFourPercent],
       productDiscounts = [sampleLink ''l1'' ''d34f'', sampleLink ''l2'' ''d34p''] \<rparr>"

text \<open>A store with one link, its identifiers written as ObjectId strings.\<close>

definition linkedProductId :: string where
  "linkedProductId = ''65a1b2c3d4e5f60718293a4b''"

definition linkedDiscountId :: string where
  "linkedDiscountId = ''65a1b2c3d4e5f60718293a4c''"

definition storedLink :: ProductDiscount where
  "storedLink =
     \<lparr> link_id = ''65a1b2c3d4e5f60718293a4d'', productId = linkedProductId,
       productItemId = None, discountId = linkedDiscountId, link_isActive = True \<rparr>"

definition linkedDb :: Database where
  "linkedDb = \<lparr> discounts = [], productDiscounts = [storedLink] \<rparr>"

text \<open>Rewriting the usage cap and the usage counter of a discount record, the other fields
  kept; used to compare the pricing of two stores that differ in these fields only.\<close>

definition setUsage :: "(Discount \<Rightarrow> int option) \<Rightarrow> (Discount \<Rightarrow> int) \<Rightarrow> Discount \<Rightarrow> Discount" where
  "setUsage m u d = d\<lparr>maxUsageCount := m d, usageCount := u d\<rparr>"

section \<open>Evaluation rules for the sample data\<close>

lemmas sample_defs = sampleProduct_def sampleDiscount_def sampleLink_def exhaustedDiscount_def
  exhaustedDb_def emptyDb_def tenPercent_def twentyFixed_def twentyPercent_def tieDb_def
  expiredDiscount_def expiredDb_def onlyExpiredDb_def overHundred_def overHundredDb_def sixtyFixed_def
  emptyUpdate_def windowDb_def sampleCreate_def thirtyFourFixed_def thirtyFourPercent_def
  roundingDb_def linkedProductId_def linkedDiscountId_def storedLink_def linkedDb_def

lemmas pricing_defs = resolvePricing_def findByProduct_def validDiscounts_def findById_def
  validAndActive_def savings_def discountedPrice_def calculateProductPricing_def
  mapToResponseDto_def Let_def

section \<open>The selection loop\<close>

lemma loop_result_cases:
  "bestDiscountLoop bp vs (fp, best, ms) = (fp', best', ms') \<Longrightarrow>
   (fp' = fp \<and> best' = best \<and> ms' = ms) \<or>
   (\<exists>d\<in>set vs. fp' = discountedPrice bp d \<and> best' = Some d \<and> ms' = savings bp d)"
proof (induction vs arbitrary: fp best ms)
  case Nil
  then show ?case by simp
next
  case (Cons a vs)
  show ?case
  proof (cases "savings bp a > ms")
    case True
    with Cons.prems have "bestDiscountLoop bp vs (discountedPrice bp a, Some a, savings bp a) = (fp', best', ms')"
      by simp
    from Cons.IH[OF this] show ?thesis by auto
  next
    case False
    with Cons.prems have "bestDiscountLoop bp vs (fp, best, ms) = (fp', best', ms')"
      by simp
    from Cons.IH[OF this] show ?thesis by auto
  qed
qed

section \<open>The validity filter and the resolver\<close>

lemma validAndActive_Some:
  "validAndActive now x \<Longrightarrow> \<exists>d. x = Some d \<and> isActive d \<and> startDate d \<le> now \<and> now \<le> endDate d"
  unfolding validAndActive_def by (cases x) (auto split: if_splits)

lemma validDiscounts_member:
  assumes "d \<in> set (validDiscounts db now links)"
  shows "\<exists>l\<in>set links. findById (discounts db) (discountId l) = Some d \<and>
           isActive d \<and> startDate d \<le> now \<and> now \<le> endDate d"
proof -
  from assms obtain x where x: "x \<in> set (map (findById (discounts db)) (map discountId links))"
    "validAndActive now x" "d = the x"
    unfolding validDiscounts_def by auto
  from validAndActive_Some[OF x(2)] x(3) have "x = Some d" "isActive d" "startDate d \<le> now" "now \<le> endDate d"
    by auto
  with x(1) show ?thesis by auto
qed

lemma findById_id: "findById ds i = Some d \<Longrightarrow> discount_id d = i"
  unfolding findById_def by (auto simp: find_Some_iff)


lemma resolvePricing_none:
  assumes "\<forall>l\<in>set (findByProduct (productDiscounts db) (product_id product)).
             \<not> validAndActive now (findById (discounts db) (discountId l))"
  shows "resolvePricing db now product = (basePrice product, [])"
proof -
  have "validDiscounts db now (findByProduct (productDiscounts db) (product_id product)) = []"
    unfolding validDiscounts_def using assms by (auto simp: filter_empty_conv)
  then show ?thesis unfolding resolvePricing_def by (simp add: Let_def)
qed

lemma resolvePricing_valid:
  assumes "validDiscounts db now (findByProduct (productDiscounts db) (product_id product)) = vs"
    and "vs \<noteq> []"
  shows "resolvePricing db now product =
           (case bestDiscountLoop (basePrice product) vs (basePrice product, None, 0) of
              (finalPrice, bestDiscount, maxSavings) \<Rightarrow>
                (finalPrice, (case bestDiscount of Some b \<Rightarrow> [toApplied b] | None \<Rightarrow> [])))"
proof -
  from assms have "findByProduct (productDiscounts db) (product_id product) \<noteq> []"
    unfolding validDiscounts_def by auto
  with assms show ?thesis unfolding resolvePricing_def by (simp add: Let_def)
qed

lemma resolvePricing_cases:
  "resolvePricing db now product = (basePrice product, []) \<or>
   (\<exists>w\<in>set (validDiscounts db now (findByProduct (productDiscounts db) (product_id product))).
      resolvePricing db now product = (discountedPrice (basePrice product) w, [toApplied w]))"
proof (cases "validDiscounts db now (findByProduct (productDiscounts db) (product_id product)) = []")
  case True
  then show ?thesis unfolding resolvePricing_def by (simp add: Let_def)
next
  case False
  obtain fp b ms where r: "bestDiscountLoop (basePrice product)
      (validDiscounts db now (findByProduct (productDiscounts db) (product_id product)))
      (basePrice product, None, 0) = (fp, b, ms)"
    by (metis prod_cases3)
  from loop_result_cases[OF r] resolvePricing_valid[OF refl False] r show ?thesis by auto
qed

section \<open>Pricing does not read the usage fields\<close>

lemma findById_setUsage:
  "findById (map (setUsage m u) ds) i = map_option (setUsage m u) (findById ds i)"
  unfolding findById_def by (induction ds) (auto simp: setUsage_def)

lemma validAndActive_setUsage:
  "validAndActive now (map_option (setUsage m u) x) = validAndActive now x"
  unfolding validAndActive_def by (cases x) (auto simp: setUsage_def)

lemma validDiscounts_setUsage:
  "validDiscounts (db\<lparr>discounts := map (setUsage m u) (discounts db)\<rparr>) now links =
   map (setUsage m u) (validDiscounts db now links)"
proof -
  have "map the (filter (validAndActive now) (map (map_option (setUsage m u)) xs)) =
        map (setUsage m u) (map the (filter (validAndActive now) xs))" for xs
  proof (induction xs)
    case Nil
    then show ?case by simp
  next
    case (Cons x xs)
    then show ?case
      using validAndActive_setUsage[of now m u x] validAndActive_Some[of now x]
      by (cases x) auto
  qed
  from this[of "map (findById (discounts db)) (map discountId links)"]
  show ?thesis unfolding validDiscounts_def by (simp add: findById_setUsage comp_def)
qed

lemma savings_setUsage: "savings bp (setUsage m u d) = savings bp d"
  and discountedPrice_setUsage: "discountedPrice bp (setUsage m u d) = discountedPrice bp d"
  and toApplied_setUsage: "toApplied (setUsage m u d) = toApplied d"
  unfolding savings_def discountedPrice_def toApplied_def setUsage_def by simp_all

lemma loop_setUsage:
  "bestDiscountLoop bp (map (setUsage m u) vs) (fp, map_option (setUsage m u) best, ms) =
   (case bestDiscountLoop bp vs (fp, best, ms) of
      (fp', best', ms') \<Rightarrow> (fp', map_option (setUsage m u) best', ms'))"
proof (induction vs arbitrary: fp best ms)
  case Nil
  then show ?case by simp
next
  case (Cons a vs)
  show ?case
    using Cons.IH[of "discountedPrice bp a" "Some a" "savings bp a"] Cons.IH[of fp best ms]
    by (simp add: savings_setUsage discountedPrice_setUsage)
qed

lemma resolvePricing_setUsage:
  "resolvePricing (db\<lparr>discounts := map (setUsage m u) (discounts db)\<rparr>) now product =
   resolvePricing db now product"
proof -
  let ?vs = "validDiscounts db now (findByProduct (productDiscounts db) (product_id product))"
  obtain fp b ms where r: "bestDiscountLoop (basePrice product) ?vs (basePrice product, None, 0) = (fp, b, ms)"
    by (metis prod_cases3)
  with loop_setUsage[of "basePrice product" m u ?vs "basePrice product" None 0]
  have "bestDiscountLoop (basePrice product) (map (setUsage m u) ?vs) (basePrice product, None, 0) =
        (fp, map_option (setUsage m u) b, ms)" by simp
  with r show ?thesis
    unfolding resolvePricing_def
    by (cases b) (simp_all add: Let_def validDiscounts_setUsage toApplied_setUsage)
qed

section \<open>Rounding to binary64\<close>

text \<open>Rounding to the nearest integer is monotone, odd and fixes the integers.\<close>

lemma rne_of_int: "roundHalfEven (of_int n) = n"
  by (simp add: roundHalfEven_def)

lemma rne_range: "roundHalfEven x = \<lfloor>x\<rfloor> \<or> roundHalfEven x = \<lfloor>x\<rfloor> + 1"
  by (simp add: roundHalfEven_def Let_def)

lemma rne_mono: "x \<le> y \<Longrightarrow> roundHalfEven x \<le> roundHalfEven y"
proof -
  assume xy: "x \<le> y"
  then have fl: "\<lfloor>x\<rfloor> \<le> \<lfloor>y\<rfloor>" by (rule floor_mono)
  show ?thesis
  proof (cases "\<lfloor>x\<rfloor> = \<lfloor>y\<rfloor>")
    case True
    with xy show ?thesis by (auto simp: roundHalfEven_def Let_def)
  next
    case False
    with fl have "\<lfloor>x\<rfloor> + 1 \<le> \<lfloor>y\<rfloor>" by simp
    with rne_range[of x] rne_range[of y] show ?thesis by auto
  qed
qed

lemma rne_minus: "roundHalfEven (- x) = - roundHalfEven x"
proof (cases "x \<in> \<int>")
  case True
  then obtain n where "x = of_int n" by (auto elim: Ints_cases)
  then show ?thesis using rne_of_int[of n] rne_of_int[of "- n"] by simp
next
  case False
  then have c: "\<lfloor>- x\<rfloor> = - \<lfloor>x\<rfloor> - 1"
    by (metis (no_types, lifting) Ints_of_int add.inverse_distrib_swap
        ceiling_altdef floor_minus uminus_add_conv_diff)
  show ?thesis unfolding roundHalfEven_def Let_def c
    by (auto simp: algebra_simps)
qed

lemma rne_nonneg: "0 \<le> x \<Longrightarrow> 0 \<le> roundHalfEven x"
  using rne_mono[of 0 x] rne_of_int[of 0] by simp

lemma rne_le_int: "x \<le> of_int n \<Longrightarrow> roundHalfEven x \<le> n"
  using rne_mono[of x "of_int n"] rne_of_int[of n] by simp

lemma rne_ge_int: "of_int n \<le> x \<Longrightarrow> n \<le> roundHalfEven x"
  using rne_mono[of "of_int n" x] rne_of_int[of n] by simp

text \<open>\<open>floorLog2\<close> meets its specification, which determines it.\<close>

lemma two_powi_pos: "0 < (2::rat) powi k"
  by (simp add: zero_less_power_int)

lemma two_powi_add: "(2::rat) powi a * 2 powi b = 2 powi (a + b)"
  by (simp add: power_int_add)

lemma two_powi_int: "0 \<le> k \<Longrightarrow> (2::rat) powi k = of_int (2 ^ nat k)"
  by (simp add: power_int_def)

lemma two_powi_less_cancel: "(2::rat) powi a < 2 powi b \<Longrightarrow> a < b"
proof (rule ccontr)
  assume lt: "(2::rat) powi a < 2 powi b" and "\<not> a < b"
  then have "b \<le> a" by simp
  then have "(2::rat) powi b \<le> 2 powi a" by (rule power_int_increasing) simp
  with lt show False by simp
qed

lemma floorLog2_bounds:
  assumes "0 < x"
  shows "2 powi floorLog2 x \<le> x \<and> x < 2 powi (floorLog2 x + 1)"
proof -
  obtain n d where q: "quotient_of x = (n, d)" by (cases "quotient_of x")
  then have d: "0 < d" and x: "x = of_int n / of_int d"
    using quotient_of_denom_pos[of x n d] quotient_of_div[of x n d] by auto
  with assms have n: "0 < n" by (simp add: zero_less_divide_iff)
  let ?k = "bitlen n - bitlen d"
  have bn: "1 \<le> bitlen n" and bd: "1 \<le> bitlen d"
    using n d bitlen_eq_zero_iff[of n] bitlen_eq_zero_iff[of d] bitlen_nonneg[of n] bitlen_nonneg[of d]
    by linarith+
  have n_hi: "(of_int n :: rat) < 2 powi bitlen n"
  proof -
    have "n < 2 ^ nat (bitlen n)" using bitlen_bounds[OF n] by simp
    then have "(of_int n :: rat) < of_int (2 ^ nat (bitlen n))" by (simp only: of_int_less_iff)
    then show ?thesis using bn by (simp add: power_int_def)
  qed
  have n_lo: "(2::rat) powi (bitlen n - 1) \<le> of_int n"
  proof -
    have "2 ^ nat (bitlen n - 1) \<le> n" using bitlen_bounds[OF n] by simp
    then have "(of_int (2 ^ nat (bitlen n - 1)) :: rat) \<le> of_int n" by (simp only: of_int_le_iff)
    then show ?thesis using bn by (simp add: power_int_def)
  qed
  have d_hi: "(of_int d :: rat) < 2 powi bitlen d"
  proof -
    have "d < 2 ^ nat (bitlen d)" using bitlen_bounds[OF d] by simp
    then have "(of_int d :: rat) < of_int (2 ^ nat (bitlen d))" by (simp only: of_int_less_iff)
    then show ?thesis using bd by (simp add: power_int_def)
  qed
  have d_lo: "(2::rat) powi (bitlen d - 1) \<le> of_int d"
  proof -
    have "2 ^ nat (bitlen d - 1) \<le> d" using bitlen_bounds[OF d] by simp
    then have "(of_int (2 ^ nat (bitlen d - 1)) :: rat) \<le> of_int d" by (simp only: of_int_le_iff)
    then show ?thesis using bd by (simp add: power_int_def)
  qed
  have dpos: "(0::rat) < of_int d" using d by simp
  have hi: "x < 2 powi (?k + 1)"
  proof -
    have "x * of_int d = (of_int n :: rat)" using x dpos by simp
    also have "\<dots> < 2 powi bitlen n" by (rule n_hi)
    also have "\<dots> = 2 powi (?k + 1) * 2 powi (bitlen d - 1)"
      by (simp add: power_int_add[symmetric])
    also have "\<dots> \<le> 2 powi (?k + 1) * of_int d"
      using d_lo two_powi_pos[of "?k + 1"] by (simp add: mult_left_mono)
    finally show ?thesis using dpos by simp
  qed
  have lo: "2 powi (?k - 1) \<le> x"
  proof -
    have "(2::rat) powi (?k - 1) * of_int d \<le> 2 powi (?k - 1) * 2 powi bitlen d"
      using d_hi two_powi_pos[of "?k - 1"] by (simp add: mult_left_mono less_imp_le)
    also have "\<dots> = 2 powi (bitlen n - 1)"
      by (simp add: power_int_add[symmetric])
    also have "\<dots> \<le> of_int n" by (rule n_lo)
    also have "\<dots> = x * of_int d" using x dpos by simp
    finally show ?thesis using dpos by simp
  qed
  show ?thesis
  proof (cases "2 powi ?k \<le> x")
    case True
    then have "floorLog2 x = ?k" unfolding floorLog2_def q by (simp add: Let_def)
    with True hi show ?thesis by simp
  next
    case False
    then have "floorLog2 x = ?k - 1" unfolding floorLog2_def q by (simp add: Let_def)
    with False lo show ?thesis by simp
  qed
qed

lemma floorLog2_unique:
  assumes "2 powi k \<le> x" and "x < 2 powi (k + 1)"
  shows "floorLog2 x = k"
proof -
  have x: "0 < x" using assms(1) two_powi_pos[of k] by linarith
  from floorLog2_bounds[OF x] assms
  have "(2::rat) powi floorLog2 x < 2 powi (k + 1)" "(2::rat) powi k < 2 powi (floorLog2 x + 1)"
    by linarith+
  then have "floorLog2 x < k + 1" "k < floorLog2 x + 1" by (auto dest: two_powi_less_cancel)
  then show ?thesis by simp
qed

lemma floorLog2_mono:
  assumes "0 < x" and "x \<le> y"
  shows "floorLog2 x \<le> floorLog2 y"
proof -
  have y: "0 < y" using assms by simp
  from floorLog2_bounds[OF assms(1)] floorLog2_bounds[OF y] assms(2)
  have "(2::rat) powi floorLog2 x < 2 powi (floorLog2 y + 1)" by linarith
  then have "floorLog2 x < floorLog2 y + 1" by (rule two_powi_less_cancel)
  then show ?thesis by simp
qed

text \<open>Rounding is odd, keeps the sign and is monotone: within one binade by the monotonicity
  of the integer rounding, across binades because a power of two lies between.\<close>

lemma quantum_pos: "0 < quantum x"
  unfolding quantum_def by (rule two_powi_pos)

lemma quantum_minus: "quantum (- x) = quantum x"
  unfolding quantum_def by simp

lemma roundFinite_minus: "roundFinite (- x) = - roundFinite x"
  unfolding roundFinite_def by (simp add: quantum_minus rne_minus)

lemma roundFinite_nonneg: "0 \<le> x \<Longrightarrow> 0 \<le> roundFinite x"
  unfolding roundFinite_def using quantum_pos[of x]
  by (auto intro!: mult_nonneg_nonneg rne_nonneg simp: less_imp_le)

lemma roundFinite_nonpos: "x \<le> 0 \<Longrightarrow> roundFinite x \<le> 0"
  using roundFinite_nonneg[of "- x"] roundFinite_minus[of x] by simp

lemma roundFinite_pos_def:
  "0 < x \<Longrightarrow> roundFinite x =
     of_int (roundHalfEven (x / 2 powi (max (floorLog2 x - 52) (- 1074)))) *
       2 powi (max (floorLog2 x - 52) (- 1074))"
  unfolding roundFinite_def quantum_def by simp

lemma scaled_rne_lower:
  assumes n: "0 \<le> n" and y: "2 powi (e + n) \<le> y"
  shows "(2::rat) powi (e + n) \<le> of_int (roundHalfEven (y / 2 powi e)) * 2 powi e"
proof -
  have split: "(2::rat) powi n * 2 powi e = 2 powi (e + n)"
    unfolding two_powi_add by (simp add: add.commute)
  with y have "2 powi n \<le> y / 2 powi e"
    using two_powi_pos[of e] by (simp add: pos_le_divide_eq)
  then have "of_int (2 ^ nat n) \<le> y / 2 powi e" using two_powi_int[OF n] by simp
  then have "2 ^ nat n \<le> roundHalfEven (y / 2 powi e)" by (rule rne_ge_int)
  then have "(of_int (2 ^ nat n) :: rat) \<le> of_int (roundHalfEven (y / 2 powi e))"
    by (simp only: of_int_le_iff)
  then have "(2::rat) powi n \<le> of_int (roundHalfEven (y / 2 powi e))"
    using two_powi_int[OF n] by simp
  then have "(2::rat) powi n * 2 powi e \<le> of_int (roundHalfEven (y / 2 powi e)) * 2 powi e"
    using two_powi_pos[of e] by (simp add: mult_right_mono less_imp_le)
  then show ?thesis unfolding split .
qed

lemma scaled_rne_upper:
  assumes n: "0 \<le> n" and x: "x \<le> 2 powi (e + n)"
  shows "of_int (roundHalfEven (x / 2 powi e)) * 2 powi e \<le> (2::rat) powi (e + n)"
proof -
  have split: "(2::rat) powi n * 2 powi e = 2 powi (e + n)"
    unfolding two_powi_add by (simp add: add.commute)
  with x have "x / 2 powi e \<le> 2 powi n"
    using two_powi_pos[of e] by (simp add: pos_divide_le_eq)
  then have "x / 2 powi e \<le> of_int (2 ^ nat n)" using two_powi_int[OF n] by simp
  then have "roundHalfEven (x / 2 powi e) \<le> 2 ^ nat n" by (rule rne_le_int)
  then have "(of_int (roundHalfEven (x / 2 powi e)) :: rat) \<le> of_int (2 ^ nat n)"
    by (simp only: of_int_le_iff)
  then have "(of_int (roundHalfEven (x / 2 powi e)) :: rat) \<le> 2 powi n"
    using two_powi_int[OF n] by simp
  then have "(of_int (roundHalfEven (x / 2 powi e)) :: rat) * 2 powi e \<le> 2 powi n * 2 powi e"
    using two_powi_pos[of e] by (simp add: mult_right_mono less_imp_le)
  then show ?thesis unfolding split .
qed

lemma roundFinite_mono_pos:
  assumes x: "0 < x" and xy: "x \<le> y"
  shows "roundFinite x \<le> roundFinite y"
proof -
  have y: "0 < y" using x xy by simp
  let ?ex = "max (floorLog2 x - 52) (- 1074)"
  let ?ey = "max (floorLog2 y - 52) (- 1074)"
  have le: "?ex \<le> ?ey" using floorLog2_mono[OF x xy] by simp
  show ?thesis
  proof (cases "?ex = ?ey")
    case True
    have "x / 2 powi ?ey \<le> y / 2 powi ?ey"
      using xy two_powi_pos[of ?ey] by (simp add: divide_right_mono less_imp_le)
    then have "roundHalfEven (x / 2 powi ?ey) \<le> roundHalfEven (y / 2 powi ?ey)" by (rule rne_mono)
    then have "(of_int (roundHalfEven (x / 2 powi ?ey)) :: rat) * 2 powi ?ey
        \<le> of_int (roundHalfEven (y / 2 powi ?ey)) * 2 powi ?ey"
      using two_powi_pos[of ?ey] by (simp add: mult_right_mono less_imp_le)
    then show ?thesis
      unfolding roundFinite_pos_def[OF x] roundFinite_pos_def[OF y] True .
  next
    case False
    from le False have lt: "?ex < ?ey" by (rule le_neq_trans)
    let ?k = "floorLog2 y"
    from lt have ey: "?ey = ?k - 52" by (simp add: max_def split: if_splits)
    from lt have fx: "floorLog2 x + 1 \<le> ?k" by (simp add: max_def split: if_splits)
    from lt ey have d: "0 \<le> ?k - ?ex" by (simp add: max_def split: if_splits)
    have "2 powi ?k \<le> y" using floorLog2_bounds[OF y] by simp
    then have "2 powi (?ey + 52) \<le> y" unfolding ey by simp
    then have "(2::rat) powi (?ey + 52) \<le> of_int (roundHalfEven (y / 2 powi ?ey)) * 2 powi ?ey"
      by (rule scaled_rne_lower[rotated]) simp
    then have lower: "2 powi ?k \<le> roundFinite y"
      unfolding roundFinite_pos_def[OF y] ey by simp
    have "x < 2 powi (floorLog2 x + 1)" using floorLog2_bounds[OF x] by simp
    also have "\<dots> \<le> 2 powi ?k" using fx by (rule power_int_increasing) simp
    finally have "x \<le> 2 powi (?ex + (?k - ?ex))" by simp
    then have "of_int (roundHalfEven (x / 2 powi ?ex)) * 2 powi ?ex \<le> (2::rat) powi (?ex + (?k - ?ex))"
      by (rule scaled_rne_upper[OF d])
    then have upper: "roundFinite x \<le> 2 powi ?k"
      unfolding roundFinite_pos_def[OF x] by simp
    from upper lower show ?thesis by simp
  qed
qed

lemma roundFinite_mono: "x \<le> y \<Longrightarrow> roundFinite x \<le> roundFinite y"
proof -
  assume xy: "x \<le> y"
  consider "0 < x" | "x \<le> 0" "0 \<le> y" | "y < 0" by linarith
  then show ?thesis
  proof cases
    case 1
    then show ?thesis using xy by (rule roundFinite_mono_pos)
  next
    case 2
    then show ?thesis using roundFinite_nonpos[of x] roundFinite_nonneg[of y] by simp
  next
    case 3
    then have "0 < - y" "- y \<le> - x" using xy by simp_all
    then have "roundFinite (- y) \<le> roundFinite (- x)" by (rule roundFinite_mono_pos)
    then show ?thesis by (simp add: roundFinite_minus)
  qed
qed

text \<open>The rounding error is at most half the spacing.\<close>

lemma rne_error: "\<bar>of_int (roundHalfEven y) - y\<bar> \<le> 1 / 2"
proof -
  have "of_int \<lfloor>y\<rfloor> \<le> y" "y < of_int \<lfloor>y\<rfloor> + 1" by linarith+
  then show ?thesis unfolding roundHalfEven_def Let_def by (auto simp: abs_le_iff)
qed

lemma quantum_bound:
  assumes "x \<noteq> 0"
  shows "quantum x \<le> \<bar>x\<bar> / 2 ^ 52 + 1 / 2 ^ 1074"
proof -
  have x: "0 < \<bar>x\<bar>" using assms by simp
  let ?k = "floorLog2 \<bar>x\<bar>"
  have "(2::rat) powi (?k - 52) * 2 powi 52 = 2 powi ?k" unfolding two_powi_add by simp
  then have "(2::rat) powi (?k - 52) = 2 powi ?k / 2 ^ 52" by (simp add: field_simps)
  also have "\<dots> \<le> \<bar>x\<bar> / 2 ^ 52" using floorLog2_bounds[OF x] by (simp add: divide_right_mono)
  finally have a: "(2::rat) powi (?k - 52) \<le> \<bar>x\<bar> / 2 ^ 52" .
  have b: "(2::rat) powi (- 1074) = 1 / 2 ^ 1074" by (simp add: power_int_minus_divide)
  have "0 \<le> \<bar>x\<bar> / 2 ^ 52" by simp
  show ?thesis
  proof (cases "?k - 52 \<le> - 1074")
    case True
    then have "quantum x = 2 powi (- 1074)" unfolding quantum_def by (simp add: max_def)
    with b \<open>0 \<le> \<bar>x\<bar> / 2 ^ 52\<close> show ?thesis by linarith
  next
    case False
    then have "quantum x = 2 powi (?k - 52)" unfolding quantum_def by (simp add: max_def)
    with a show ?thesis by simp
  qed
qed

lemma roundFinite_error: "\<bar>roundFinite x - x\<bar> \<le> \<bar>x\<bar> / 2 ^ 53 + 1 / 2 ^ 1075"
proof (cases "x = 0")
  case True
  then show ?thesis by (simp add: roundFinite_def)
next
  case False
  let ?q = "quantum x"
  have q: "0 < ?q" by (rule quantum_pos)
  have "roundFinite x - x = (of_int (roundHalfEven (x / ?q)) - x / ?q) * ?q"
    using False q unfolding roundFinite_def by (simp add: field_simps)
  then have "\<bar>roundFinite x - x\<bar> = \<bar>of_int (roundHalfEven (x / ?q)) - x / ?q\<bar> * ?q"
    using q by (simp add: abs_mult)
  also have "\<dots> \<le> 1 / 2 * ?q" using rne_error[of "x / ?q"] q by (simp add: mult_right_mono less_imp_le)
  also have "\<dots> \<le> 1 / 2 * (\<bar>x\<bar> / 2 ^ 52 + 1 / 2 ^ 1074)" using quantum_bound[OF False] by simp
  also have "\<dots> = \<bar>x\<bar> / 2 ^ 53 + 1 / 2 ^ 1075" by simp
  finally show ?thesis .
qed

text \<open>Evaluating a rounding from the binade \<open>k\<close> and the integer part \<open>f\<close> of the scaled
  argument.\<close>

lemma roundFinite_eqI:
  assumes "2 powi k \<le> x" and "x < 2 powi (k + 1)" and "e = max (k - 52) (- 1074)"
    and "roundHalfEven (x / 2 powi e) = m"
  shows "roundFinite x = of_int m * 2 powi e"
proof -
  have x: "0 < x" using assms(1) two_powi_pos[of k] by linarith
  from floorLog2_unique[OF assms(1,2)] assms(3,4) show ?thesis
    unfolding roundFinite_pos_def[OF x] by simp
qed

lemma rne_eqI:
  assumes "of_int f \<le> x" and "x < of_int f + 1"
    and "m = (if x - of_int f < 1 / 2 then f else if x - of_int f > 1 / 2 then f + 1
              else if even f then f else f + 1)"
  shows "roundHalfEven x = m"
proof -
  from assms(1,2) have "\<lfloor>x\<rfloor> = f" by (simp add: floor_unique)
  with assms(3) show ?thesis unfolding roundHalfEven_def by (simp add: Let_def)
qed

lemma roundFinite_eval:
  assumes "2 powi k \<le> x" and "x < 2 powi (k + 1)" and "e = max (k - 52) (- 1074)"
    and "of_int f \<le> x / 2 powi e" and "x / 2 powi e < of_int f + 1"
    and "m = (if x / 2 powi e - of_int f < 1 / 2 then f
              else if x / 2 powi e - of_int f > 1 / 2 then f + 1
              else if even f then f else f + 1)"
  shows "roundFinite x = of_int m * 2 powi e"
  using roundFinite_eqI[OF assms(1,2,3) rne_eqI[OF assms(4,5,6)]] .

lemma round64_eval:
  assumes "2 powi k \<le> x" and "x < 2 powi (k + 1)" and "e = max (k - 52) (- 1074)"
    and "of_int f \<le> x / 2 powi e" and "x / 2 powi e < of_int f + 1"
    and "m = (if x / 2 powi e - of_int f < 1 / 2 then f
              else if x / 2 powi e - of_int f > 1 / 2 then f + 1
              else if even f then f else f + 1)"
    and "(of_int m :: rat) * 2 powi e < 2 ^ 1024"
  shows "round64 x = Fin (of_int m * 2 powi e)"
proof -
  have x: "0 \<le> x" using assms(1) two_powi_pos[of k] by linarith
  have r: "roundFinite x = of_int m * 2 powi e" by (rule roundFinite_eval[OF assms(1-6)])
  with roundFinite_nonneg[OF x] assms(7) show ?thesis
    unfolding round64_def by (simp add: Let_def)
qed

lemma round64_eval_neg:
  assumes "2 powi k \<le> x" and "x < 2 powi (k + 1)" and "e = max (k - 52) (- 1074)"
    and "of_int f \<le> x / 2 powi e" and "x / 2 powi e < of_int f + 1"
    and "m = (if x / 2 powi e - of_int f < 1 / 2 then f
              else if x / 2 powi e - of_int f > 1 / 2 then f + 1
              else if even f then f else f + 1)"
    and "(of_int m :: rat) * 2 powi e < 2 ^ 1024"
  shows "round64 (- x) = Fin (- (of_int m * 2 powi e))"
proof -
  have x: "0 < x" using assms(1) two_powi_pos[of k] by linarith
  have r: "roundFinite x = of_int m * 2 powi e" by (rule roundFinite_eval[OF assms(1-6)])
  then have "roundFinite (- x) = - (of_int m * 2 powi e)" by (simp add: roundFinite_minus)
  moreover have "0 \<le> roundFinite x" using x by (simp add: roundFinite_nonneg)
  ultimately show ?thesis using r assms(7)
    unfolding round64_def by (simp add: Let_def)
qed

text \<open>The range, and rounding between binary64 values.\<close>

lemma round64_cases:
  "(round64 x = PosInf \<and> 2 ^ 1024 \<le> roundFinite x) \<or>
   (round64 x = NegInf \<and> roundFinite x \<le> - (2 ^ 1024)) \<or>
   (round64 x = Fin (roundFinite x) \<and> - (2 ^ 1024) < roundFinite x \<and> roundFinite x < 2 ^ 1024)"
  unfolding round64_def Let_def by auto

lemma isDouble_D: "isDouble p \<Longrightarrow> roundFinite p = p \<and> - (2 ^ 1024) < p \<and> p < 2 ^ 1024"
  unfolding isDouble_def using round64_cases[of p] by auto

lemma round64_nonneg: "0 \<le> x \<Longrightarrow> ge0 (round64 x)"
  using round64_cases[of x] roundFinite_nonneg[of x] by auto

lemma round64_le_double:
  assumes "isDouble p" and "x \<le> p"
  shows "round64 x = NegInf \<or> (\<exists>r. round64 x = Fin r \<and> r \<le> p \<and> r = roundFinite x)"
  using round64_cases[of x] roundFinite_mono[OF assms(2)] isDouble_D[OF assms(1)] by auto

lemma round64_between_doubles:
  assumes "isDouble lo" and "isDouble hi" and "lo \<le> x" and "x \<le> hi"
  shows "\<exists>r. round64 x = Fin r \<and> lo \<le> r \<and> r \<le> hi"
  using round64_cases[of x] roundFinite_mono[OF assms(3)] roundFinite_mono[OF assms(4)]
    isDouble_D[OF assms(1)] isDouble_D[OF assms(2)] by auto

lemma round64_in_range:
  assumes "isDouble lo" and "isDouble hi" and "lo \<le> x" and "x \<le> hi"
  shows "round64 x = Fin (roundFinite x) \<and> lo \<le> roundFinite x \<and> roundFinite x \<le> hi"
  using round64_cases[of x] roundFinite_mono[OF assms(3)] roundFinite_mono[OF assms(4)]
    isDouble_D[OF assms(1)] isDouble_D[OF assms(2)] by auto

lemma roundFinite_0: "roundFinite 0 = 0"
  by (simp add: roundFinite_def)

lemma roundFinite_1: "roundFinite 1 = 1"
  using roundFinite_eval[of 0 1 "-52" 4503599627370496 4503599627370496] by simp

lemma isDouble_0: "isDouble 0"
  unfolding isDouble_def round64_def by (simp add: roundFinite_0)

lemma isDouble_1: "isDouble 1"
  unfolding isDouble_def round64_def by (simp add: roundFinite_1)

lemma isDouble_minus: "isDouble p \<Longrightarrow> isDouble (- p)"
  unfolding isDouble_def using round64_cases[of p] round64_cases[of "- p"]
  by (auto simp: roundFinite_minus)

section \<open>Candidate prices and savings in binary64\<close>

lemma percentage_price_ge0:
  assumes "0 \<le> p" and "0 \<le> v" and "v \<le> 100"
  shows "ge0 (mul64 (Fin p) (sub64 (Fin 1) (div100 (Fin v))))"
proof -
  have "0 \<le> v / 100" "v / 100 \<le> 1" using assms by simp_all
  from round64_between_doubles[OF isDouble_0 isDouble_1 this]
  obtain q where q: "round64 (v / 100) = Fin q" "0 \<le> q" "q \<le> 1" by auto
  then have "0 \<le> 1 - q" "1 - q \<le> 1" by simp_all
  from round64_between_doubles[OF isDouble_0 isDouble_1 this]
  obtain r where r: "round64 (1 - q) = Fin r" "0 \<le> r" "r \<le> 1" by auto
  have "0 \<le> p * r" using assms(1) r(2) by simp
  then have "ge0 (round64 (p * r))" by (rule round64_nonneg)
  with q r show ?thesis by simp
qed

lemma fixed_price_ge0: "ge0 (max0 (sub64 (Fin p) (Fin v)))"
  using round64_cases[of "p - v"] by auto

text \<open>The candidate prices are finite, at most the base price and close to the exact value of
  the formula.\<close>

lemma percentage_price_close:
  assumes p: "isDouble p" "0 \<le> p" and v: "0 \<le> v" "v \<le> 100"
  shows "\<exists>x. mul64 (Fin p) (sub64 (Fin 1) (div100 (Fin v))) = Fin x \<and> 0 \<le> x \<and> x \<le> p \<and>
           \<bar>x - p * (1 - v / 100)\<bar> \<le> p / 2 ^ 51 + 1 / 2 ^ 1075"
proof -
  define eps :: rat where "eps = 1 / 2 ^ 53"
  define eta :: rat where "eta = 1 / 2 ^ 1075"
  have small: "2 * eta \<le> eps" "0 \<le> eta" "0 \<le> eps" unfolding eps_def eta_def by simp_all
  have four: "4 * eps = 1 / 2 ^ 51" unfolding eps_def by simp
  have err: "\<bar>roundFinite x - x\<bar> \<le> \<bar>x\<bar> * eps + eta" for x
    using roundFinite_error[of x] unfolding eps_def eta_def by simp
  have unit: "\<bar>x\<bar> * eps \<le> eps" if "0 \<le> x" "x \<le> 1" for x
    using that small(3) by (simp add: mult_left_le_one_le)
  define a where "a = v / 100"
  have a: "0 \<le> a" "a \<le> 1" unfolding a_def using v by simp_all
  define q where "q = roundFinite a"
  from round64_in_range[OF isDouble_0 isDouble_1 a]
  have q: "round64 a = Fin q" "0 \<le> q" "q \<le> 1" unfolding q_def by simp_all
  have qe: "\<bar>q - a\<bar> \<le> eps + eta"
    using err[of a] unit[OF a] unfolding q_def by linarith
  define r where "r = roundFinite (1 - q)"
  have q1: "0 \<le> 1 - q" "1 - q \<le> 1" using q by simp_all
  from round64_in_range[OF isDouble_0 isDouble_1 q1]
  have r: "round64 (1 - q) = Fin r" "0 \<le> r" "r \<le> 1" unfolding r_def by simp_all
  have re: "\<bar>r - (1 - q)\<bar> \<le> eps + eta"
    using err[of "1 - q"] unit[OF q1] unfolding r_def by linarith
  define d where "d = roundFinite (p * r)"
  have pr: "0 \<le> p * r" "p * r \<le> p" using p(2) r by (simp_all add: mult_left_le)
  from round64_in_range[OF isDouble_0 p(1) pr]
  have d: "round64 (p * r) = Fin d" "0 \<le> d" "d \<le> p" unfolding d_def by simp_all
  have "\<bar>p * r\<bar> * eps \<le> p * eps" using pr small(3) by (simp add: mult_right_mono)
  with err[of "p * r"] have de: "\<bar>d - p * r\<bar> \<le> p * eps + eta" unfolding d_def by linarith
  have "\<bar>r - (1 - a)\<bar> \<le> \<bar>r - (1 - q)\<bar> + \<bar>q - a\<bar>" by linarith
  with re qe small have "\<bar>r - (1 - a)\<bar> \<le> 3 * eps" by linarith
  then have "p * \<bar>r - (1 - a)\<bar> \<le> p * (3 * eps)" using p(2) by (rule mult_left_mono)
  moreover have "p * \<bar>r - (1 - a)\<bar> = \<bar>p * r - p * (1 - a)\<bar>"
    using p(2) by (simp add: abs_mult flip: right_diff_distrib)
  ultimately have pe: "\<bar>p * r - p * (1 - a)\<bar> \<le> 3 * (p * eps)" by simp
  have "\<bar>d - p * (1 - a)\<bar> \<le> \<bar>d - p * r\<bar> + \<bar>p * r - p * (1 - a)\<bar>" by linarith
  with de pe have "\<bar>d - p * (1 - a)\<bar> \<le> p * (4 * eps) + eta" by linarith
  then have "\<bar>d - p * (1 - v / 100)\<bar> \<le> p / 2 ^ 51 + 1 / 2 ^ 1075"
    unfolding four a_def eta_def by simp
  with q r d show ?thesis unfolding a_def by simp
qed

lemma fixed_price_close:
  assumes p: "isDouble p" "0 \<le> p" and v: "isDouble v" "0 \<le> v"
  shows "\<exists>x. max0 (sub64 (Fin p) (Fin v)) = Fin x \<and> 0 \<le> x \<and> x \<le> p \<and>
           \<bar>x - max 0 (p - v)\<bar> \<le> \<bar>p - v\<bar> / 2 ^ 53 + 1 / 2 ^ 1075"
proof -
  define s where "s = roundFinite (p - v)"
  have "- v \<le> p - v" "p - v \<le> p" using p(2) v(2) by simp_all
  from round64_in_range[OF isDouble_minus[OF v(1)] p(1) this]
  have s: "round64 (p - v) = Fin s" "s \<le> p" unfolding s_def by simp_all
  have "\<bar>max 0 s - max 0 (p - v)\<bar> \<le> \<bar>s - (p - v)\<bar>" by (simp add: max_def abs_if)
  also have "\<dots> \<le> \<bar>p - v\<bar> / 2 ^ 53 + 1 / 2 ^ 1075"
    using roundFinite_error[of "p - v"] unfolding s_def .
  finally show ?thesis using s p(2) by simp
qed

lemma savings64_nonneg:
  assumes p: "isDouble p" "0 \<le> p" and v: "isDouble (discount_value d)" "0 \<le> discount_value d"
  shows "ge0 (savings64 p d)"
proof (cases "discountType d")
  case PERCENTAGE
  let ?v = "discount_value d"
  have "0 \<le> ?v / 100" "?v / 100 \<le> ?v" using v(2) by simp_all
  from round64_between_doubles[OF isDouble_0 v(1) this]
  obtain q where q: "round64 (?v / 100) = Fin q" "0 \<le> q" "q \<le> ?v" by auto
  then have "- ?v \<le> 1 - q" "1 - q \<le> 1" by simp_all
  from round64_between_doubles[OF isDouble_minus[OF v(1)] isDouble_1 this]
  obtain r where r: "round64 (1 - q) = Fin r" "r \<le> 1" by auto
  have "p * r \<le> p" using p(2) r(2) by (simp add: mult_left_le)
  from round64_le_double[OF p(1) this]
  have "ge0 (sub64 (Fin p) (round64 (p * r)))"
  proof
    assume "round64 (p * r) = NegInf"
    then show ?thesis by simp
  next
    assume "\<exists>x. round64 (p * r) = Fin x \<and> x \<le> p \<and> x = roundFinite (p * r)"
    then obtain x where x: "round64 (p * r) = Fin x" "x \<le> p" by auto
    then have "0 \<le> p - x" by simp
    then have "ge0 (round64 (p - x))" by (rule round64_nonneg)
    with x show ?thesis by simp
  qed
  with PERCENTAGE q r show ?thesis
    unfolding savings64_def discountedPrice64_def by simp
next
  case FIXED_AMOUNT
  let ?v = "discount_value d"
  have "p - ?v \<le> p" using v(2) by simp
  from round64_le_double[OF p(1) this]
  have "\<exists>x. max0 (round64 (p - ?v)) = Fin x \<and> x \<le> p"
  proof
    assume "round64 (p - ?v) = NegInf"
    then show ?thesis using p(2) by simp
  next
    assume "\<exists>x. round64 (p - ?v) = Fin x \<and> x \<le> p \<and> x = roundFinite (p - ?v)"
    then show ?thesis using p(2) by auto
  qed
  then obtain x where x: "max0 (round64 (p - ?v)) = Fin x" "x \<le> p" by auto
  then have "0 \<le> p - x" by simp
  then have "ge0 (round64 (p - x))" by (rule round64_nonneg)
  with FIXED_AMOUNT x show ?thesis
    unfolding savings64_def discountedPrice64_def by simp
qed

text \<open>The comparison \<open>x > y\<close> orders the numbers other than NaN.\<close>

lemma gt64_trans_le: "\<not> gt64 a b \<Longrightarrow> gt64 c b \<Longrightarrow> \<not> gt64 a c"
  by (cases a; cases b; cases c) auto

lemma gt64_trans: "gt64 c b \<Longrightarrow> gt64 b a \<Longrightarrow> gt64 c a"
  by (cases a; cases b; cases c) auto

lemma gt64_ge0: "gt64 b a \<Longrightarrow> ge0 a \<Longrightarrow> gt64 b (Fin 0)"
  by (cases a; cases b) auto

lemma gt64_irrefl: "\<not> gt64 a a"
  by (cases a) auto

section \<open>The selection loop in binary64\<close>

lemma loop64_no_improvement:
  "\<forall>x\<in>set vs. \<not> gt64 (savings64 bp x) ms \<Longrightarrow> bestDiscountLoop64 bp vs (fp, best, ms) = (fp, best, ms)"
  by (induction vs) auto

lemma loop64_first_max:
  "\<forall>x\<in>set pre. gt64 (savings64 bp w) (savings64 bp x) \<Longrightarrow>
   \<forall>x\<in>set post. \<not> gt64 (savings64 bp x) (savings64 bp w) \<Longrightarrow>
   gt64 (savings64 bp w) ms \<Longrightarrow>
   bestDiscountLoop64 bp (pre @ w # post) (fp, best, ms) = (discountedPrice64 bp w, Some w, savings64 bp w)"
proof (induction pre arbitrary: fp best ms)
  case Nil
  then show ?case by (simp add: loop64_no_improvement)
next
  case (Cons a pre)
  then show ?case by simp
qed

lemma loop64_result_cases:
  "bestDiscountLoop64 bp vs (fp, best, ms) = (fp', best', ms') \<Longrightarrow>
   (fp' = fp \<and> best' = best \<and> ms' = ms) \<or>
   (\<exists>d\<in>set vs. fp' = discountedPrice64 bp d \<and> best' = Some d \<and> ms' = savings64 bp d)"
proof (induction vs arbitrary: fp best ms)
  case Nil
  then show ?case by simp
next
  case (Cons a vs)
  show ?case
  proof (cases "gt64 (savings64 bp a) ms")
    case True
    with Cons.prems have "bestDiscountLoop64 bp vs (discountedPrice64 bp a, Some a, savings64 bp a) = (fp', best', ms')"
      by simp
    from Cons.IH[OF this] show ?thesis by auto
  next
    case False
    with Cons.prems have "bestDiscountLoop64 bp vs (fp, best, ms) = (fp', best', ms')"
      by simp
    from Cons.IH[OF this] show ?thesis by auto
  qed
qed

lemma loop64_upper_bound:
  "bestDiscountLoop64 bp vs (fp, best, ms) = (fp', best', ms') \<Longrightarrow>
   (ms' = ms \<or> gt64 ms' ms) \<and> (\<forall>x\<in>set vs. \<not> gt64 (savings64 bp x) ms')"
proof (induction vs arbitrary: fp best ms)
  case Nil
  then show ?case by simp
next
  case (Cons a vs)
  show ?case
  proof (cases "gt64 (savings64 bp a) ms")
    case True
    with Cons.prems have "bestDiscountLoop64 bp vs (discountedPrice64 bp a, Some a, savings64 bp a) = (fp', best', ms')"
      by simp
    from Cons.IH[OF this] have ih: "ms' = savings64 bp a \<or> gt64 ms' (savings64 bp a)"
      "\<forall>x\<in>set vs. \<not> gt64 (savings64 bp x) ms'" by auto
    from ih(1) True have "gt64 ms' ms" by (auto intro: gt64_trans)
    moreover from ih(1) have "\<not> gt64 (savings64 bp a) ms'"
      using gt64_irrefl[of "savings64 bp a"] gt64_trans[of ms' "savings64 bp a" ms'] gt64_irrefl[of ms'] by auto
    ultimately show ?thesis using ih(2) by auto
  next
    case False
    with Cons.prems have "bestDiscountLoop64 bp vs (fp, best, ms) = (fp', best', ms')"
      by simp
    from Cons.IH[OF this] have ih: "ms' = ms \<or> gt64 ms' ms"
      "\<forall>x\<in>set vs. \<not> gt64 (savings64 bp x) ms'" by auto
    from ih(1) False have "\<not> gt64 (savings64 bp a) ms'"
      using gt64_trans_le[of "savings64 bp a" ms ms'] by auto
    with ih show ?thesis by auto
  qed
qed

lemma resolvePricing64_valid:
  assumes "validDiscounts db now (findByProduct (productDiscounts db) (product_id product)) = vs"
    and "vs \<noteq> []"
  shows "resolvePricing64 db now product =
           (case bestDiscountLoop64 (basePrice product) vs (Fin (basePrice product), None, Fin 0) of
              (finalPrice, bestDiscount, maxSavings) \<Rightarrow>
                (finalPrice, (case bestDiscount of Some b \<Rightarrow> [toApplied b] | None \<Rightarrow> [])))"
proof -
  from assms have "findByProduct (productDiscounts db) (product_id product) \<noteq> []"
    unfolding validDiscounts_def by auto
  with assms show ?thesis unfolding resolvePricing64_def by (simp add: Let_def)
qed

section \<open>The sample prices in binary64\<close>

text \<open>The roundings that the sample discounts need on a price of 100 (and the fixed 60 on 50),
  each checked against its binade and its neighbours.\<close>

lemma round64_10_percent: "round64 (1 / 10) = Fin (3602879701896397 / 36028797018963968)"
  using round64_eval[of "- 4" "1 / 10" "- 56" 7205759403792793 7205759403792794]
  by simp

lemma round64_one_minus_10_percent: "round64 (32425917317067571 / 36028797018963968) = Fin (8106479329266893 / 9007199254740992)"
  using round64_eval[of "- 1" "32425917317067571 / 36028797018963968" "- 53" 8106479329266892 8106479329266893]
  by simp

lemma round64_price_10_percent: "round64 (202661983231672325 / 2251799813685248) = Fin (90)"
  using round64_eval[of "6" "202661983231672325 / 2251799813685248" "- 46" 6333186975989760 6333186975989760]
  by simp

lemma round64_savings_10_percent: "round64 (10) = Fin (10)"
  using round64_eval[of "3" "10" "- 49" 5629499534213120 5629499534213120]
  by simp

lemma round64_20_percent: "round64 (1 / 5) = Fin (3602879701896397 / 18014398509481984)"
  using round64_eval[of "- 3" "1 / 5" "- 55" 7205759403792793 7205759403792794]
  by simp

lemma round64_one_minus_20_percent: "round64 (14411518807585587 / 18014398509481984) = Fin (3602879701896397 / 4503599627370496)"
  using round64_eval[of "- 1" "14411518807585587 / 18014398509481984" "- 53" 7205759403792793 7205759403792794]
  by simp

lemma round64_price_20_percent: "round64 (90071992547409925 / 1125899906842624) = Fin (80)"
  using round64_eval[of "6" "90071992547409925 / 1125899906842624" "- 46" 5629499534213120 5629499534213120]
  by simp

lemma round64_savings_20_percent: "round64 (20) = Fin (20)"
  using round64_eval[of "4" "20" "- 48" 5629499534213120 5629499534213120]
  by simp

lemma round64_34_percent: "round64 (17 / 50) = Fin (6124895493223875 / 18014398509481984)"
  using round64_eval[of "- 2" "17 / 50" "- 54" 6124895493223874 6124895493223875]
  by simp

lemma round64_one_minus_34_percent: "round64 (11889503016258109 / 18014398509481984) = Fin (2972375754064527 / 4503599627370496)"
  using round64_eval[of "- 1" "11889503016258109 / 18014398509481984" "- 53" 5944751508129054 5944751508129054]
  by simp

lemma round64_price_34_percent: "round64 (74309393851613175 / 1125899906842624) = Fin (4644337115725823 / 70368744177664)"
  using round64_eval[of "6" "74309393851613175 / 1125899906842624" "- 46" 4644337115725823 4644337115725823]
  by simp

lemma round64_savings_34_percent: "round64 (2392537302040577 / 70368744177664) = Fin (2392537302040577 / 70368744177664)"
  using round64_eval[of "5" "2392537302040577 / 70368744177664" "- 47" 4785074604081154 4785074604081154]
  by simp

lemma round64_price_20_fixed: "round64 (80) = Fin (80)"
  using round64_eval[of "6" "80" "- 46" 5629499534213120 5629499534213120]
  by simp

lemma round64_price_34_fixed: "round64 (66) = Fin (66)"
  using round64_eval[of "6" "66" "- 46" 4644337115725824 4644337115725824]
  by simp

lemma round64_savings_34_fixed: "round64 (34) = Fin (34)"
  using round64_eval[of "5" "34" "- 47" 4785074604081152 4785074604081152]
  by simp

lemma round64_50_minus_60: "round64 (- 10) = Fin (- 10)"
  using round64_eval_neg[of "3" "10" "- 49" 5629499534213120 5629499534213120]
  by simp

lemma round64_100: "round64 (100) = Fin (100)"
  using round64_eval[of "6" "100" "- 46" 7036874417766400 7036874417766400]
  by simp

lemma round64_50: "round64 50 = Fin 50"
  using round64_eval[of "5" "50" "- 47" 7036874417766400 7036874417766400]
  by simp

lemma round64_60: "round64 60 = Fin 60"
  using round64_eval[of "5" "60" "- 47" 8444249301319680 8444249301319680]
  by simp

lemmas round64_values = round64_10_percent round64_one_minus_10_percent round64_price_10_percent
  round64_savings_10_percent round64_20_percent round64_one_minus_20_percent round64_price_20_percent
  round64_savings_20_percent round64_34_percent round64_one_minus_34_percent round64_price_34_percent
  round64_savings_34_percent round64_price_20_fixed round64_price_34_fixed round64_savings_34_fixed
  round64_50_minus_60 round64_100

lemma isDouble_100: "isDouble 100"
  unfolding isDouble_def by (rule round64_100)

lemma isDouble_10: "isDouble 10"
  unfolding isDouble_def by (rule round64_savings_10_percent)

lemma isDouble_50: "isDouble 50"
  unfolding isDouble_def by (rule round64_50)

lemma isDouble_60: "isDouble 60"
  unfolding isDouble_def by (rule round64_60)

lemma price64_34_percent:
  "discountedPrice64 100 thirtyFourPercent = Fin (4644337115725823 / 70368744177664)"
  by (simp add: discountedPrice64_def thirtyFourPercent_def sampleDiscount_def round64_values)

lemma savings64_34_percent:
  "savings64 100 thirtyFourPercent = Fin (2392537302040577 / 70368744177664)"
  by (simp add: savings64_def price64_34_percent round64_values)

lemma price64_34_fixed: "discountedPrice64 100 thirtyFourFixed = Fin 66"
  by (simp add: discountedPrice64_def thirtyFourFixed_def sampleDiscount_def round64_values)

lemma savings64_34_fixed: "savings64 100 thirtyFourFixed = Fin 34"
  by (simp add: savings64_def price64_34_fixed round64_values)

lemma price64_10_percent: "discountedPrice64 100 tenPercent = Fin 90"
  by (simp add: discountedPrice64_def tenPercent_def sampleDiscount_def round64_values)

lemma savings64_10_percent: "savings64 100 tenPercent = Fin 10"
  by (simp add: savings64_def price64_10_percent round64_values)

lemma price64_20_percent: "discountedPrice64 100 twentyPercent = Fin 80"
  by (simp add: discountedPrice64_def twentyPercent_def sampleDiscount_def round64_values)

lemma savings64_20_percent: "savings64 100 twentyPercent = Fin 20"
  by (simp add: savings64_def price64_20_percent round64_values)

lemma price64_20_fixed: "discountedPrice64 100 twentyFixed = Fin 80"
  by (simp add: discountedPrice64_def twentyFixed_def sampleDiscount_def round64_values)

lemma savings64_20_fixed: "savings64 100 twentyFixed = Fin 20"
  by (simp add: savings64_def price64_20_fixed round64_values)

lemma price64_60_fixed: "discountedPrice64 50 sixtyFixed = Fin 0"
  by (simp add: discountedPrice64_def sixtyFixed_def sampleDiscount_def round64_values)

lemmas sample64_values = price64_34_percent savings64_34_percent price64_34_fixed savings64_34_fixed
  price64_10_percent savings64_10_percent price64_20_percent savings64_20_percent
  price64_20_fixed savings64_20_fixed price64_60_fixed

lemma sample_fields:
  "discountType thirtyFourPercent = PERCENTAGE" "discount_value thirtyFourPercent = 34"
  "discountType sixtyFixed = FIXED_AMOUNT" "discount_value sixtyFixed = 60"
  "discount_value tenPercent = 10" "basePrice sampleProduct = 100"
  by (simp_all add: thirtyFourPercent_def sixtyFixed_def tenPercent_def sampleDiscount_def
      sampleProduct_def)

lemma valid_tieDb:
  "validDiscounts tieDb 500 (findByProduct (productDiscounts tieDb) (product_id sampleProduct)) =
     [tenPercent, twentyFixed, twentyPercent]"
  by (simp add: sampleProduct_def sampleLink_def tieDb_def findByProduct_def findById_def
      validDiscounts_def validAndActive_def tenPercent_def twentyFixed_def twentyPercent_def
      sampleDiscount_def)

lemma valid_roundingDb:
  "validDiscounts roundingDb 500 (findByProduct (productDiscounts roundingDb) (product_id sampleProduct)) =
     [thirtyFourFixed, thirtyFourPercent]"
  by (simp add: sampleProduct_def sampleLink_def roundingDb_def findByProduct_def findById_def
      validDiscounts_def validAndActive_def thirtyFourFixed_def thirtyFourPercent_def
      sampleDiscount_def)

section \<open>Claims\<close>

subsection \<open>C1: the usage cap and pricing\<close>

text \<open>C1, as amended. The usage cap is enforced by \<open>DiscountRepository.isDiscountValid\<close>, which
  answers false for a discount whose \<open>maxUsageCount\<close> is set (and not 0) and whose \<open>usageCount\<close>
  has reached it. The pricing resolution does not consult the cap: it filters the linked
  discounts by \<open>isActive\<close> and the date window only, so the final price, the applied discounts
  and the whole response are the same whatever the usage fields of the stored discounts are.\<close>

theorem pricing_ignores_usage_cap:
  "resolvePricing (db\<lparr>discounts := map (setUsage m u) (discounts db)\<rparr>) now product =
     resolvePricing db now product \<and>
   calculateProductPricing (db\<lparr>discounts := map (setUsage m u) (discounts db)\<rparr>) now product =
     calculateProductPricing db now product \<and>
   (findById ds i = Some d \<and> maxUsageCount d = Some c \<and> c \<noteq> 0 \<and> usageCount d \<ge> c \<longrightarrow>
      \<not> isDiscountValid ds now i)"
  unfolding calculateProductPricing_def isDiscountValid_def
  by (simp add: resolvePricing_setUsage)

text \<open>The amended statement at the store of the exhausted 20 percent discount: clearing the usage
  fields leaves the price at 80, and \<open>isDiscountValid\<close> rejects the discount.\<close>

theorem pricing_ignores_usage_cap_witness:
  "resolvePricing (exhaustedDb\<lparr>discounts := map (setUsage (\<lambda>d. None) (\<lambda>d. 0)) (discounts exhaustedDb)\<rparr>) 500 sampleProduct =
     (80, [toApplied exhaustedDiscount]) \<and>
   resolvePricing exhaustedDb 500 sampleProduct = (80, [toApplied exhaustedDiscount]) \<and>
   findById (discounts exhaustedDb) ''d1'' = Some exhaustedDiscount \<and>
   maxUsageCount exhaustedDiscount = Some 5 \<and> (5::int) \<noteq> 0 \<and> usageCount exhaustedDiscount \<ge> 5 \<and>
   \<not> isDiscountValid (discounts exhaustedDb) 500 ''d1''"
  using pricing_ignores_usage_cap[of "\<lambda>d. None" "\<lambda>d. 0" exhaustedDb 500 sampleProduct
      "discounts exhaustedDb" "''d1''" exhaustedDiscount 5]
  by (simp add: sample_defs pricing_defs toApplied_def)

text \<open>C1 as stated fails: the product costs 100, its only linked discount has
  \<open>maxUsageCount = 5\<close> and \<open>usageCount = 5\<close>, and the resolver still applies it and returns 80.\<close>

theorem usage_cap_counterexample:
  "basePrice sampleProduct = 100 \<and>
   findByProduct (productDiscounts exhaustedDb) (product_id sampleProduct) = [sampleLink ''l1'' ''d1''] \<and>
   findById (discounts exhaustedDb) ''d1'' = Some exhaustedDiscount \<and>
   maxUsageCount exhaustedDiscount = Some 5 \<and> usageCount exhaustedDiscount = 5 \<and>
   resolvePricing exhaustedDb 500 sampleProduct = (80, [toApplied exhaustedDiscount]) \<and>
   res_finalPrice (calculateProductPricing exhaustedDb 500 sampleProduct) = Some 80 \<and>
   res_appliedDiscounts (calculateProductPricing exhaustedDb 500 sampleProduct) =
     Some [toApplied exhaustedDiscount]"
  by (simp add: sample_defs pricing_defs)

subsection \<open>C2: optional fields of the response\<close>

text \<open>C2, as amended. \<open>finalPrice\<close> is present in every product read response: it is the price
  the resolver returns, which is \<open>basePrice\<close> when no discount applied. \<open>appliedDiscounts\<close> is
  present only if it is non-empty.\<close>

theorem response_price_fields:
  "res_finalPrice (calculateProductPricing db now product) = Some (fst (resolvePricing db now product)) \<and>
   (snd (resolvePricing db now product) = [] \<longrightarrow>
      res_finalPrice (calculateProductPricing db now product) = Some (basePrice product) \<and>
      res_appliedDiscounts (calculateProductPricing db now product) = None) \<and>
   (snd (resolvePricing db now product) \<noteq> [] \<longrightarrow>
      res_appliedDiscounts (calculateProductPricing db now product) =
        Some (snd (resolvePricing db now product)))"
  using resolvePricing_cases[of db now product]
  unfolding calculateProductPricing_def mapToResponseDto_def
  by (auto split: prod.splits)

text \<open>The amended statement on a product without links and on the product with three linked
  discounts.\<close>

theorem response_price_fields_witness:
  "snd (resolvePricing emptyDb 500 sampleProduct) = [] \<and>
   res_finalPrice (calculateProductPricing emptyDb 500 sampleProduct) = Some 100 \<and>
   res_appliedDiscounts (calculateProductPricing emptyDb 500 sampleProduct) = None \<and>
   snd (resolvePricing tieDb 500 sampleProduct) \<noteq> [] \<and>
   res_finalPrice (calculateProductPricing tieDb 500 sampleProduct) = Some 80 \<and>
   res_appliedDiscounts (calculateProductPricing tieDb 500 sampleProduct) = Some [toApplied twentyFixed]"
  using response_price_fields[of emptyDb 500 sampleProduct] response_price_fields[of tieDb 500 sampleProduct]
  by (simp add: sample_defs pricing_defs)

text \<open>C2 as stated fails: a product with no linked discount is answered with \<open>finalPrice\<close> present
  and equal to \<open>basePrice\<close>.\<close>

theorem final_price_present_counterexample:
  "findByProduct (productDiscounts emptyDb) (product_id sampleProduct) = [] \<and>
   res_basePrice (calculateProductPricing emptyDb 500 sampleProduct) = 100 \<and>
   res_finalPrice (calculateProductPricing emptyDb 500 sampleProduct) = Some 100"
  by (simp add: sample_defs pricing_defs)

subsection \<open>C3: the greatest savings win, the earliest on a tie\<close>

text \<open>C3. The savings compared are the numbers the code computes, in binary64. Let \<open>vs\<close> be the
  valid linked discounts of a product in fetch order. If the savings of \<open>w\<close> are greater than
  zero, greater than those of every discount before it and not exceeded by those of any
  discount after it, the resolver applies \<open>w\<close>: the winner is the first discount of maximal
  savings. And whenever two valid discounts save \<open>S1 < S2\<close> (stored price and value being
  non-negative binary64 values, as the schemas require), the applied discount saves more than
  \<open>S1\<close> and no valid discount saves more than it.\<close>

theorem best_discount_selected:
  assumes vs: "validDiscounts db now (findByProduct (productDiscounts db) (product_id product)) = vs"
    and p: "basePrice product = p"
  shows "(vs = pre @ w # post \<and> (\<forall>x\<in>set pre. gt64 (savings64 p w) (savings64 p x)) \<and>
            (\<forall>x\<in>set post. \<not> gt64 (savings64 p x) (savings64 p w)) \<and>
            gt64 (savings64 p w) (Fin 0) \<longrightarrow>
          resolvePricing64 db now product = (discountedPrice64 p w, [toApplied w])) \<and>
         (d1 \<in> set vs \<and> d2 \<in> set vs \<and> gt64 (savings64 p d2) (savings64 p d1) \<and>
            isDouble p \<and> 0 \<le> p \<and> isDouble (discount_value d1) \<and> 0 \<le> discount_value d1 \<longrightarrow>
          (\<exists>b\<in>set vs. resolvePricing64 db now product = (discountedPrice64 p b, [toApplied b]) \<and>
             gt64 (savings64 p b) (savings64 p d1) \<and>
             (\<forall>x\<in>set vs. \<not> gt64 (savings64 p x) (savings64 p b))))"
proof (intro conjI impI)
  assume a: "vs = pre @ w # post \<and> (\<forall>x\<in>set pre. gt64 (savings64 p w) (savings64 p x)) \<and>
            (\<forall>x\<in>set post. \<not> gt64 (savings64 p x) (savings64 p w)) \<and>
            gt64 (savings64 p w) (Fin 0)"
  then have ne: "vs \<noteq> []" by simp
  from a have "bestDiscountLoop64 p vs (Fin p, None, Fin 0) = (discountedPrice64 p w, Some w, savings64 p w)"
    using loop64_first_max[of pre p w post "Fin 0" "Fin p" None] by simp
  with resolvePricing64_valid[OF vs ne] p
  show "resolvePricing64 db now product = (discountedPrice64 p w, [toApplied w])" by simp
next
  assume a: "d1 \<in> set vs \<and> d2 \<in> set vs \<and> gt64 (savings64 p d2) (savings64 p d1) \<and>
            isDouble p \<and> 0 \<le> p \<and> isDouble (discount_value d1) \<and> 0 \<le> discount_value d1"
  then have ne: "vs \<noteq> []" by auto
  from a savings64_nonneg[of p d1] have "ge0 (savings64 p d1)" by simp
  with a have pos: "gt64 (savings64 p d2) (Fin 0)" by (auto intro: gt64_ge0)
  obtain fp b ms where r: "bestDiscountLoop64 p vs (Fin p, None, Fin 0) = (fp, b, ms)"
    by (metis prod_cases3)
  from loop64_upper_bound[OF r] have ub: "\<forall>x\<in>set vs. \<not> gt64 (savings64 p x) ms" by simp
  with a have "\<not> gt64 (savings64 p d2) ms" by simp
  with pos have "ms \<noteq> Fin 0" by auto
  with loop64_result_cases[OF r] obtain d where d: "d \<in> set vs" "fp = discountedPrice64 p d"
    "b = Some d" "ms = savings64 p d" by auto
  from resolvePricing64_valid[OF vs ne] p r d
  have "resolvePricing64 db now product = (discountedPrice64 p d, [toApplied d])" by simp
  moreover have "gt64 (savings64 p d) (savings64 p d1)"
  proof -
    from ub a d have n: "\<not> gt64 (savings64 p d2) (savings64 p d)" by simp
    from a have g: "gt64 (savings64 p d2) (savings64 p d1)" by simp
    from loop64_upper_bound[OF r] \<open>ms \<noteq> Fin 0\<close> d have z: "gt64 (savings64 p d) (Fin 0)" by auto
    show ?thesis using n g z
      by (cases "savings64 p d"; cases "savings64 p d1"; cases "savings64 p d2") auto
  qed
  ultimately show "\<exists>b\<in>set vs. resolvePricing64 db now product = (discountedPrice64 p b, [toApplied b]) \<and>
             gt64 (savings64 p b) (savings64 p d1) \<and>
             (\<forall>x\<in>set vs. \<not> gt64 (savings64 p x) (savings64 p b))"
    using d ub by auto
qed

text \<open>On the sample product: 10 percent saves 10, the fixed 20 and the 20 percent both save 20,
  and the fixed 20, fetched first of the two, is applied. A fixed 34 saves 34 and 34 percent
  saves \<open>34.000000000000014\<close> after rounding, so there the percentage, fetched second, is
  applied at \<open>65.99999999999999\<close>.\<close>

theorem best_discount_selected_witness:
  "validDiscounts tieDb 500 (findByProduct (productDiscounts tieDb) (product_id sampleProduct)) =
     [tenPercent] @ twentyFixed # [twentyPercent] \<and>
   gt64 (savings64 100 twentyFixed) (savings64 100 tenPercent) \<and>
   \<not> gt64 (savings64 100 twentyPercent) (savings64 100 twentyFixed) \<and>
   gt64 (savings64 100 twentyFixed) (Fin 0) \<and>
   isDouble 100 \<and> isDouble (discount_value tenPercent) \<and> 0 \<le> discount_value tenPercent \<and>
   resolvePricing64 tieDb 500 sampleProduct = (Fin 80, [toApplied twentyFixed]) \<and>
   validDiscounts roundingDb 500 (findByProduct (productDiscounts roundingDb) (product_id sampleProduct)) =
     [thirtyFourFixed] @ thirtyFourPercent # [] \<and>
   savings64 100 thirtyFourFixed = Fin 34 \<and>
   savings64 100 thirtyFourPercent = Fin (2392537302040577 / 70368744177664) \<and>
   gt64 (savings64 100 thirtyFourPercent) (savings64 100 thirtyFourFixed) \<and>
   resolvePricing64 roundingDb 500 sampleProduct =
     (Fin (4644337115725823 / 70368744177664), [toApplied thirtyFourPercent])"
  using best_discount_selected[of tieDb 500 sampleProduct "[tenPercent] @ twentyFixed # [twentyPercent]" 100
      "[tenPercent]" twentyFixed "[twentyPercent]" tenPercent twentyFixed]
    best_discount_selected[of roundingDb 500 sampleProduct "[thirtyFourFixed] @ thirtyFourPercent # []" 100
      "[thirtyFourFixed]" thirtyFourPercent "[]" thirtyFourFixed thirtyFourPercent]
    isDouble_100 isDouble_10
  by (simp add: sample64_values sample_fields valid_tieDb valid_roundingDb)

subsection \<open>C4: the candidate price\<close>

text \<open>C4. The candidate price of a percentage discount of value \<open>v\<close> on base price \<open>p\<close> is
  \<open>p * (1 - v / 100)\<close> as binary64 computes it: not negative for \<open>v\<close> in \<open>[0, 100]\<close> (the base
  price being non-negative, as the product schema requires), and then a finite number within
  \<open>p / 2^51 + 2^-1075\<close> of the exact value of the formula. That of a fixed-amount discount is
  \<open>Math.max(0, p - v)\<close>: never negative, and for non-negative price and value within
  \<open>\<bar>p - v\<bar> / 2^53 + 2^-1075\<close> of the exact \<open>max 0 (p - v)\<close>.\<close>

theorem candidate_price:
  "(discountType d = PERCENTAGE \<longrightarrow>
      discountedPrice64 p d = mul64 (Fin p) (sub64 (Fin 1) (div100 (Fin (discount_value d)))) \<and>
      (0 \<le> p \<and> 0 \<le> discount_value d \<and> discount_value d \<le> 100 \<longrightarrow> ge0 (discountedPrice64 p d)) \<and>
      (isDouble p \<and> 0 \<le> p \<and> 0 \<le> discount_value d \<and> discount_value d \<le> 100 \<longrightarrow>
         (\<exists>x. discountedPrice64 p d = Fin x \<and> 0 \<le> x \<and> x \<le> p \<and>
            \<bar>x - p * (1 - discount_value d / 100)\<bar> \<le> p / 2 ^ 51 + 1 / 2 ^ 1075))) \<and>
   (discountType d = FIXED_AMOUNT \<longrightarrow>
      discountedPrice64 p d = max0 (sub64 (Fin p) (Fin (discount_value d))) \<and>
      ge0 (discountedPrice64 p d) \<and>
      (isDouble p \<and> 0 \<le> p \<and> isDouble (discount_value d) \<and> 0 \<le> discount_value d \<longrightarrow>
         (\<exists>x. discountedPrice64 p d = Fin x \<and> 0 \<le> x \<and> x \<le> p \<and>
            \<bar>x - max 0 (p - discount_value d)\<bar> \<le> \<bar>p - discount_value d\<bar> / 2 ^ 53 + 1 / 2 ^ 1075)))"
  unfolding discountedPrice64_def
  using percentage_price_ge0[of p "discount_value d"] fixed_price_ge0[of p "discount_value d"]
    percentage_price_close[of p "discount_value d"] fixed_price_close[of p "discount_value d"]
  by simp

text \<open>34 percent off 100 is \<open>65.99999999999999\<close>, the binary64 value \<open>66 - 2^-46\<close>; a fixed 60
  off 50 is floored at 0.\<close>

theorem candidate_price_witness:
  "discountType thirtyFourPercent = PERCENTAGE \<and> isDouble 100 \<and> (0::rat) \<le> 100 \<and>
   0 \<le> discount_value thirtyFourPercent \<and> discount_value thirtyFourPercent \<le> 100 \<and>
   discountedPrice64 100 thirtyFourPercent = Fin (4644337115725823 / 70368744177664) \<and>
   discountedPrice64 100 thirtyFourPercent =
     mul64 (Fin 100) (sub64 (Fin 1) (div100 (Fin (discount_value thirtyFourPercent)))) \<and>
   ge0 (discountedPrice64 100 thirtyFourPercent) \<and>
   \<bar>4644337115725823 / 70368744177664 - 100 * (1 - discount_value thirtyFourPercent / 100)\<bar>
     \<le> (100::rat) / 2 ^ 51 + 1 / 2 ^ 1075 \<and>
   discountType sixtyFixed = FIXED_AMOUNT \<and> isDouble 50 \<and> isDouble (discount_value sixtyFixed) \<and>
   discountedPrice64 50 sixtyFixed = Fin 0 \<and> ge0 (discountedPrice64 50 sixtyFixed) \<and>
   \<bar>0 - max 0 (50 - discount_value sixtyFixed)\<bar>
     \<le> \<bar>50 - discount_value sixtyFixed\<bar> / 2 ^ 53 + 1 / 2 ^ 1075"
  using candidate_price[of thirtyFourPercent 100] candidate_price[of sixtyFixed 50]
    isDouble_100 isDouble_50 isDouble_60
  by (simp add: sample64_values sample_fields round64_values)

subsection \<open>C5: discounts outside their window or inactive\<close>

text \<open>C5. A stored discount with \<open>now < startDate\<close>, \<open>now > endDate\<close> or \<open>isActive = false\<close> never
  appears among the applied discounts of a pricing result computed at \<open>now\<close>, neither in the
  resolver's list nor in the response.\<close>

theorem invalid_discount_never_applied:
  assumes "findById (discounts db) i = Some d"
    and "now < startDate d \<or> now > endDate d \<or> isActive d = False"
  shows "(\<forall>a\<in>set (snd (resolvePricing db now product)). applied_id a \<noteq> i) \<and>
         (\<forall>as. res_appliedDiscounts (calculateProductPricing db now product) = Some as \<longrightarrow>
            (\<forall>a\<in>set as. applied_id a \<noteq> i))"
proof -
  have main: "\<forall>a\<in>set (snd (resolvePricing db now product)). applied_id a \<noteq> i"
  proof
    fix a assume a: "a \<in> set (snd (resolvePricing db now product))"
    with resolvePricing_cases[of db now product] obtain w where
      w: "w \<in> set (validDiscounts db now (findByProduct (productDiscounts db) (product_id product)))"
         "a = toApplied w" by auto
    from validDiscounts_member[OF w(1)] obtain l :: ProductDiscount where
      l: "findById (discounts db) (discountId l) = Some w \<and> isActive w \<and> startDate w \<le> now \<and> now \<le> endDate w"
      by auto
    show "applied_id a \<noteq> i"
    proof
      assume "applied_id a = i"
      with w(2) findById_id[of "discounts db" "discountId l" w] l
      have "discountId l = i" by (simp add: toApplied_def)
      with l assms(1) have "w = d" by simp
      with l assms(2) show False by auto
    qed
  qed
  moreover have "res_appliedDiscounts (calculateProductPricing db now product) = Some as \<Longrightarrow>
      as = snd (resolvePricing db now product)" for as
    unfolding calculateProductPricing_def mapToResponseDto_def
    by (auto split: prod.splits if_splits)
  ultimately show ?thesis by blast
qed

text \<open>At time 500 the discount that ended at 400 is not applied, although it is linked.\<close>

theorem invalid_discount_never_applied_witness:
  "findById (discounts expiredDb) ''d1'' = Some expiredDiscount \<and>
   500 > endDate expiredDiscount \<and>
   list_all (\<lambda>a. applied_id a \<noteq> ''d1'') (snd (resolvePricing expiredDb 500 sampleProduct)) \<and>
   snd (resolvePricing expiredDb 500 sampleProduct) = [toApplied tenPercent] \<and>
   res_appliedDiscounts (calculateProductPricing expiredDb 500 sampleProduct) =
     Some [toApplied tenPercent]"
  using invalid_discount_never_applied[of expiredDb "''d1''" expiredDiscount 500 sampleProduct]
  by (simp add: sample_defs pricing_defs toApplied_def)

subsection \<open>C6: no applicable discount\<close>

text \<open>C6. For a product with no linked discount, and for a product none of whose linked discounts
  passes the validity filter, the resolver returns \<open>basePrice\<close> as final price and an empty list
  of applied discounts; the response then carries \<open>finalPrice = basePrice\<close> and no
  \<open>appliedDiscounts\<close>.\<close>

theorem no_valid_discount_base_price:
  assumes "findByProduct (productDiscounts db) (product_id product) = [] \<or>
           (\<forall>l\<in>set (findByProduct (productDiscounts db) (product_id product)).
              \<not> validAndActive now (findById (discounts db) (discountId l)))"
  shows "resolvePricing db now product = (basePrice product, []) \<and>
         res_finalPrice (calculateProductPricing db now product) = Some (basePrice product) \<and>
         res_appliedDiscounts (calculateProductPricing db now product) = None"
proof -
  from assms have "\<forall>l\<in>set (findByProduct (productDiscounts db) (product_id product)).
              \<not> validAndActive now (findById (discounts db) (discountId l))" by auto
  from resolvePricing_none[OF this] show ?thesis
    unfolding calculateProductPricing_def mapToResponseDto_def by simp
qed

text \<open>A store without links, and a store whose only linked discount has expired.\<close>

theorem no_valid_discount_base_price_witness:
  "findByProduct (productDiscounts emptyDb) (product_id sampleProduct) = [] \<and>
   resolvePricing emptyDb 500 sampleProduct = (100, []) \<and>
   res_finalPrice (calculateProductPricing emptyDb 500 sampleProduct) = Some 100 \<and>
   res_appliedDiscounts (calculateProductPricing emptyDb 500 sampleProduct) = None \<and>
   findByProduct (productDiscounts onlyExpiredDb) (product_id sampleProduct) = [sampleLink ''l1'' ''d1''] \<and>
   \<not> validAndActive 500 (findById (discounts onlyExpiredDb) (discountId (sampleLink ''l1'' ''d1''))) \<and>
   resolvePricing onlyExpiredDb 500 sampleProduct = (100, []) \<and>
   res_finalPrice (calculateProductPricing onlyExpiredDb 500 sampleProduct) = Some 100 \<and>
   res_appliedDiscounts (calculateProductPricing onlyExpiredDb 500 sampleProduct) = None"
  using no_valid_discount_base_price[of emptyDb sampleProduct 500]
    no_valid_discount_base_price[of onlyExpiredDb sampleProduct 500]
  by (simp add: sample_defs findByProduct_def findById_def validAndActive_def)

subsection \<open>C7: creation checks the window\<close>

text \<open>C7. A creation request whose \<open>startDate\<close> is not strictly before its \<open>endDate\<close> is rejected
  and leaves the store as it was. The error is the bad-request "End date must be after start
  date", unless the request carries a code that is already taken: the code is checked first
  and then the conflict error is raised.\<close>

theorem create_rejects_bad_dates:
  assumes "cd_startDate dto \<ge> cd_endDate dto"
  shows "snd (create db newId dto) = db \<and>
         (fst (create db newId dto) = Inl (BadRequestException ''End date must be after start date'') \<or>
          fst (create db newId dto) = Inl (ConflictException ''Discount with this code already exists'')) \<and>
         (fst (create db newId dto) = Inl (ConflictException ''Discount with this code already exists'') \<longleftrightarrow>
            (\<exists>c. cd_code dto = Some c \<and> c \<noteq> [] \<and> findByCode (discounts db) c \<noteq> None))"
proof (cases "case cd_code dto of None \<Rightarrow> None | Some c \<Rightarrow> if c = [] then None else findByCode (discounts db) c")
  case None
  with assms have c: "create db newId dto = (Inl (BadRequestException ''End date must be after start date''), db)"
    unfolding create_def by simp
  from None have "\<not> (\<exists>c. cd_code dto = Some c \<and> c \<noteq> [] \<and> findByCode (discounts db) c \<noteq> None)"
    by (cases "cd_code dto") (auto split: if_splits)
  with c show ?thesis by simp
next
  case (Some existing)
  then have c: "create db newId dto = (Inl (ConflictException ''Discount with this code already exists''), db)"
    unfolding create_def by simp
  from Some have "\<exists>c. cd_code dto = Some c \<and> c \<noteq> [] \<and> findByCode (discounts db) c \<noteq> None"
    by (cases "cd_code dto") (auto split: if_splits)
  with c show ?thesis by simp
qed

text \<open>A request whose window runs from 900 to 100.\<close>

theorem create_rejects_bad_dates_witness:
  "cd_startDate (sampleCreate 900 100) \<ge> cd_endDate (sampleCreate 900 100) \<and>
   snd (create windowDb ''new'' (sampleCreate 900 100)) = windowDb \<and>
   fst (create windowDb ''new'' (sampleCreate 900 100)) =
     Inl (BadRequestException ''End date must be after start date'')"
  using create_rejects_bad_dates[of "sampleCreate 900 100" windowDb "''new''"]
  by (simp add: sampleCreate_def windowDb_def create_def findByCode_def sample_defs)

subsection \<open>C8: updates and the window\<close>

text \<open>C8. \<open>update\<close> compares the dates only when the request carries both. On a discount with
  the window \<open>[0, 1000]\<close>, a request that carries \<open>startDate = 2000\<close> alone is accepted, and the
  stored record then starts after it ends.\<close>

theorem update_partial_dates_unchecked:
  "update windowDb ''d20p'' (emptyUpdate\<lparr>ud_startDate := Some 2000\<rparr>) =
     (Inr (twentyPercent\<lparr>startDate := 2000\<rparr>),
      \<lparr> discounts = [twentyPercent\<lparr>startDate := 2000\<rparr>], productDiscounts = [] \<rparr>) \<and>
   startDate (twentyPercent\<lparr>startDate := 2000\<rparr>) > endDate (twentyPercent\<lparr>startDate := 2000\<rparr>)"
  by (simp add: update_def windowDb_def emptyUpdate_def findById_def applyUpdate_def sample_defs)

subsection \<open>C9: unlinking\<close>

text \<open>C9. The repository finds the first matching link and then deletes by \<open>link.id\<close>, which
  a lean object does not have: nothing is deleted and the answer is false. On a store that
  holds the link, the service therefore raises not-found and the link stays.\<close>

theorem unlink_existing_link_not_found:
  "findOneLink (productDiscounts linkedDb) linkedProductId linkedDiscountId = Some storedLink \<and>
   unlinkProductFromDiscount (productDiscounts linkedDb) linkedProductId linkedDiscountId =
     (False, [storedLink]) \<and>
   unlinkFromProduct linkedDb linkedProductId linkedDiscountId =
     (Inl (NotFoundException ''Product-Discount link not found''), linkedDb)"
  by (simp add: unlinkFromProduct_def unlinkProductFromDiscount_def findOneLink_def lean_id_def
      linkedDb_def storedLink_def)

subsection \<open>C10: a percentage above 100\<close>




end
